theory Spec2Isabelle
  imports Complex_Main "HOL-Library.AList"
begin

section \<open>Numbers, coordinates and coordinate keys\<close>

text \<open>
  A coordinate is the two-element array \<open>[lon, lat]\<close> of the GeoJSON data. Its components
  are finite JavaScript numbers; each is modelled by the real number it denotes.

  \<open>haversineDistance\<close> is floating-point trigonometry. It is not evaluated here: every
  function that calls it takes it as the parameter \<open>hav\<close>, whose result is any JavaScript
  number, \<open>NaN\<close> and the infinities included, and \<open>js_lt\<close> is the \<open><\<close> of JavaScript
  on such numbers (false whenever an operand is \<open>NaN\<close>).
\<close>

type_synonym coord = "real \<times> real"

datatype jsnum = NaN | NegInf | Fin real | PosInf

fun js_lt :: "jsnum \<Rightarrow> jsnum \<Rightarrow> bool" where
  "js_lt NaN _ = False"
| "js_lt _ NaN = False"
| "js_lt (Fin x) (Fin y) = (x < y)"
| "js_lt NegInf NegInf = False"
| "js_lt NegInf _ = True"
| "js_lt _ NegInf = False"
| "js_lt PosInf _ = False"
| "js_lt (Fin x) PosInf = True"

text \<open>
  \<open>Number.prototype.toFixed\<close> (ECMAScript 21.1.3.3) on a finite number \<open>x\<close>: the sign is
  taken off first (\<open>x < 0\<close> gives the prefix \<open>-\<close>), then \<open>n\<close> is the integer for which
  \<open>n / 10^f - x\<close> is closest to zero, the larger one on a tie, and the decimal digits of
  \<open>n\<close> are padded with zeros to \<open>f + 1\<close> characters and split by a point before the last
  \<open>f\<close> (\<open>fixedDigits\<close>). From \<open>10^21\<close> on the result is the number's
  \<open>ToString\<close>, which depends on the binary representation and is the parameter
  \<open>numberToString\<close>.
\<close>

definition digit_chars :: string where
  "digit_chars = ''0123456789''"

function digits :: "nat \<Rightarrow> string" where
  "digits n = (if n < 10 then [digit_chars ! n] else digits (n div 10) @ [digit_chars ! (n mod 10)])"
  by pat_completeness auto
termination
  by (relation "measure id") auto

declare digits.simps [simp del]

definition fixedDigits :: "nat \<Rightarrow> nat \<Rightarrow> string" where
  "fixedDigits f n =
     (let m = digits n
      in if f \<noteq> 0
         then let z = (if length m \<le> f then replicate (f + 1 - length m) (CHR ''0'') @ m else m);
                  k = length z
              in take (k - f) z @ ''.'' @ drop (k - f) z
         else m)"

definition toFixed :: "(real \<Rightarrow> string) \<Rightarrow> nat \<Rightarrow> real \<Rightarrow> string" where
  "toFixed numberToString f x =
     (let s = (if x < 0 then ''-'' else '''');
          a = \<bar>x\<bar>
      in if 10 ^ 21 \<le> a then s @ numberToString a
         else s @ fixedDigits f (nat \<lfloor>a * 10 ^ f + 1 / 2\<rfloor>))"

text \<open>\<open>coordKey = ([lon, lat]) => `${lon.toFixed(3)},${lat.toFixed(3)}`\<close>\<close>

definition coordKey :: "(real \<Rightarrow> string) \<Rightarrow> coord \<Rightarrow> string" where
  "coordKey numberToString c =
     toFixed numberToString 3 (fst c) @ '','' @ toFixed numberToString 3 (snd c)"

section \<open>The cable graph\<close>

text \<open>
  The GeoJSON features the builder reads: a landing is a named point, a cable a named
  \<open>LineString\<close> or \<open>MultiLineString\<close>; any other geometry type leaves the cable's
  coordinate list empty.
\<close>

record landing =
  landing_name :: string
  landing_coordinates :: coord

datatype geometry_type = LineString "coord list" | MultiLineString "coord list list" | OtherGeometry

record cable =
  cable_name :: string
  cable_geometry :: geometry_type

record edge =
  to :: string
  cableName :: string
  geometry :: "coord list"

record closest_landing =
  lkey :: string
  lcoord :: coord
  lname :: string

text \<open>
  \<open>graph\<close> and \<open>coordMap\<close> are plain objects with string keys: association lists in
  insertion order, read with \<open>map_of\<close> and written with \<open>AList.update\<close>, which
  overwrites a present key in place and appends an absent one, as property assignment does.
  \<open>map_of\<close> reads own properties only. A plain object also answers to the names it
  inherits (\<open>constructor\<close>, \<open>toString\<close>, ...); no coordinate key is such a name, since it
  contains a comma, and the builder and the planner only ever read coordinate keys.
\<close>

type_synonym graph = "(string \<times> edge list) list"
type_synonym coordMap = "(string \<times> coord) list"

definition PROXIMITY_THRESHOLD :: jsnum where
  "PROXIMITY_THRESHOLD = Fin 50"

definition closer :: "(coord \<Rightarrow> coord \<Rightarrow> jsnum) \<Rightarrow> (real \<Rightarrow> string) \<Rightarrow> coord \<Rightarrow> landing
    \<Rightarrow> closest_landing option \<times> jsnum \<Rightarrow> closest_landing option \<times> jsnum" where
  "closer hav numberToString c l st =
     (let landingCoord = landing_coordinates l;
          dist = hav c landingCoord
      in if js_lt dist (snd st) \<and> js_lt dist PROXIMITY_THRESHOLD
         then (Some \<lparr>lkey = coordKey numberToString landingCoord, lcoord = landingCoord,
                     lname = landing_name l\<rparr>, dist)
         else st)"

definition findClosestLanding :: "(coord \<Rightarrow> coord \<Rightarrow> jsnum) \<Rightarrow> (real \<Rightarrow> string) \<Rightarrow> landing list
    \<Rightarrow> coord \<Rightarrow> closest_landing option" where
  "findClosestLanding hav numberToString landings c =
     fst (fold (closer hav numberToString c) landings (None, PosInf))"

definition flatten :: "geometry_type \<Rightarrow> coord list" where
  "flatten g = (case g of LineString cs \<Rightarrow> cs | MultiLineString css \<Rightarrow> concat css | OtherGeometry \<Rightarrow> [])"

text \<open>
  \<open>edgesOf g k\<close> is the edge list stored under the own property \<open>k\<close>, empty when there
  is none. It is the value of \<open>graph[k] || []\<close> for every key that is not an inherited
  name, so for every coordinate key; \<open>lookupEdges\<close> in the next section is that expression
  for any string.
\<close>

definition edgesOf :: "graph \<Rightarrow> string \<Rightarrow> edge list" where
  "edgesOf g k = (case map_of g k of None \<Rightarrow> [] | Some es \<Rightarrow> es)"

definition ensureKey :: "string \<Rightarrow> graph \<Rightarrow> graph" where
  "ensureKey k g = (if map_of g k = None then AList.update k [] g else g)"

definition pushEdge :: "string \<Rightarrow> edge \<Rightarrow> graph \<Rightarrow> graph" where
  "pushEdge k e g = AList.update k (edgesOf g k @ [e]) g"

definition addBoth :: "string \<Rightarrow> string \<Rightarrow> string \<Rightarrow> coord list \<Rightarrow> graph \<Rightarrow> graph" where
  "addBoth s e nm coordinates g =
     pushEdge e \<lparr>to = s, cableName = nm, geometry = rev coordinates\<rparr>
       (pushEdge s \<lparr>to = e, cableName = nm, geometry = coordinates\<rparr>
         (ensureKey e (ensureKey s g)))"

text \<open>
  What one cable resolves to: the keys of the landings closest to its first and last
  coordinate, when the cable has two coordinates at least, both ends find a landing within
  the threshold and the two keys differ.
\<close>

definition resolveCable :: "(coord \<Rightarrow> coord \<Rightarrow> jsnum) \<Rightarrow> (real \<Rightarrow> string) \<Rightarrow> landing list
    \<Rightarrow> cable \<Rightarrow> (string \<times> string) option" where
  "resolveCable hav numberToString landings c =
     (let coordinates = flatten (cable_geometry c)
      in if length coordinates < 2 then None
         else case (findClosestLanding hav numberToString landings (hd coordinates),
                    findClosestLanding hav numberToString landings (last coordinates)) of
                (Some startLanding, Some endLanding) \<Rightarrow>
                  if lkey startLanding \<noteq> lkey endLanding
                  then Some (lkey startLanding, lkey endLanding) else None
              | _ \<Rightarrow> None)"

definition addCable :: "(coord \<Rightarrow> coord \<Rightarrow> jsnum) \<Rightarrow> (real \<Rightarrow> string) \<Rightarrow> landing list
    \<Rightarrow> cable \<Rightarrow> graph \<Rightarrow> graph" where
  "addCable hav numberToString landings c g =
     (case resolveCable hav numberToString landings c of
        None \<Rightarrow> g
      | Some (s, e) \<Rightarrow> addBoth s e (cable_name c) (flatten (cable_geometry c)) g)"

definition buildCoordMap :: "(real \<Rightarrow> string) \<Rightarrow> landing list \<Rightarrow> coordMap" where
  "buildCoordMap numberToString landings =
     fold (\<lambda>l m. AList.update (coordKey numberToString (landing_coordinates l))
                   (landing_coordinates l) m) landings []"

definition buildGraph :: "(coord \<Rightarrow> coord \<Rightarrow> jsnum) \<Rightarrow> (real \<Rightarrow> string) \<Rightarrow> cable list
    \<Rightarrow> landing list \<Rightarrow> graph" where
  "buildGraph hav numberToString cables landings =
     fold (addCable hav numberToString landings) cables []"

definition buildCableGraph :: "(coord \<Rightarrow> coord \<Rightarrow> jsnum) \<Rightarrow> (real \<Rightarrow> string) \<Rightarrow> cable list
    \<Rightarrow> landing list \<Rightarrow> graph \<times> coordMap" where
  "buildCableGraph hav numberToString cables landings =
     (buildGraph hav numberToString cables landings, buildCoordMap numberToString landings)"

section \<open>The path finder\<close>

text \<open>
  The \<open>for\<close> loop of \<open>findCablePathDFS\<close> returns at the first edge whose recursive call
  succeeds. Here every edge's outcome is listed in edge order and \<open>firstPath\<close> takes the
  first success, which is the same value. \<open>visited\<close> is passed by value: each recursive
  call of the source gets \<open>new Set(visited)\<close>, so no callee changes the caller's set.
\<close>

fun firstPath :: "'a option list \<Rightarrow> 'a option" where
  "firstPath [] = None"
| "firstPath (Some p # rs) = Some p"
| "firstPath (None # rs) = firstPath rs"

function findCablePathDFS :: "graph \<Rightarrow> string \<Rightarrow> string \<Rightarrow> string set \<Rightarrow> string list option" where
  "findCablePathDFS g start end visited =
     (if start = end then Some [start]
      else if start \<in> visited then None
      else firstPath
             (map (\<lambda>e. if to e \<notin> insert start visited
                        then map_option ((#) start)
                               (findCablePathDFS g (to e) end (insert start visited))
                        else None)
                  (edgesOf g start)))"
  by pat_completeness auto
termination
proof (relation "measure (\<lambda>(g, start, end, visited). card (fst ` set g - visited))")
  show "wf (measure (\<lambda>(g, start, end, visited). card (fst ` set g - visited)))"
    by simp
next
  fix g :: graph and start "end" :: string and visited :: "string set" and e :: edge
  assume nv: "start \<notin> visited" and e: "e \<in> set (edgesOf g start)"
  from e have "map_of g start \<noteq> None"
    by (cases "map_of g start") (simp_all add: edgesOf_def)
  then have "start \<in> fst ` set g"
    by (simp add: map_of_eq_None_iff)
  with nv have "fst ` set g - insert start visited \<subset> fst ` set g - visited"
    by auto
  then have "card (fst ` set g - insert start visited) < card (fst ` set g - visited)"
    by (intro psubset_card_mono) auto
  then show "((g, to e, end, insert start visited), (g, start, end, visited))
      \<in> measure (\<lambda>(g, start, end, visited). card (fst ` set g - visited))"
    by simp
qed

declare findCablePathDFS.simps [simp del]

text \<open>
  \<open>findCablePathDFS\<close> above is the function on coordinate keys. On any strings the
  lookup \<open>graph[start] || []\<close> can give something else than an edge list: for a key that is
  not an own property and is one of the names every plain object inherits from
  \<open>Object.prototype\<close>, it gives the inherited member, a function (or, for
  \<open>__proto__\<close>, the prototype object), which is truthy and not iterable, and \<open>for ... of\<close>
  throws a \<open>TypeError\<close>. \<open>findCablePathDFS_any\<close> is the function with that lookup; an
  exception of a recursive call ends the loop and is passed on. \<open>inheritedNames\<close> are the
  property names of \<open>Object.prototype\<close>. \<open>MapError\<close> is the error a map call throws
  (section on the animation driver).
\<close>

datatype js_error = TypeError | MapError

definition inheritedNames :: "string list" where
  "inheritedNames =
     [''constructor'', ''__defineGetter__'', ''__defineSetter__'', ''hasOwnProperty'',
      ''__lookupGetter__'', ''__lookupSetter__'', ''isPrototypeOf'', ''propertyIsEnumerable'',
      ''toString'', ''valueOf'', ''__proto__'', ''toLocaleString'']"

definition lookupEdges :: "graph \<Rightarrow> string \<Rightarrow> js_error + edge list" where
  "lookupEdges g k =
     (case map_of g k of
        Some es \<Rightarrow> Inr es
      | None \<Rightarrow> if k \<in> set inheritedNames then Inl TypeError else Inr [])"

fun firstOutcome :: "(js_error + 'a option) list \<Rightarrow> js_error + 'a option" where
  "firstOutcome [] = Inr None"
| "firstOutcome (Inl err # rs) = Inl err"
| "firstOutcome (Inr (Some p) # rs) = Inr (Some p)"
| "firstOutcome (Inr None # rs) = firstOutcome rs"

function findCablePathDFS_any :: "graph \<Rightarrow> string \<Rightarrow> string \<Rightarrow> string set
    \<Rightarrow> js_error + string list option" where
  "findCablePathDFS_any g start end visited =
     (if start = end then Inr (Some [start])
      else if start \<in> visited then Inr None
      else case lookupEdges g start of
             Inl err \<Rightarrow> Inl err
           | Inr es \<Rightarrow>
               firstOutcome
                 (map (\<lambda>e. if to e \<notin> insert start visited
                            then map_sum id (map_option ((#) start))
                                   (findCablePathDFS_any g (to e) end (insert start visited))
                            else Inr None)
                      es))"
  by pat_completeness auto
termination
proof (relation "measure (\<lambda>(g, start, end, visited). card (fst ` set g - visited))")
  show "wf (measure (\<lambda>(g, start, end, visited). card (fst ` set g - visited)))"
    by simp
next
  fix g :: graph and start "end" :: string and visited :: "string set" and es :: "edge list"
    and e :: edge
  assume nv: "start \<notin> visited" and l: "lookupEdges g start = Inr es" and e: "e \<in> set es"
  from l e have "map_of g start \<noteq> None"
    by (cases "map_of g start") (auto simp: lookupEdges_def split: if_splits)
  then have "start \<in> fst ` set g"
    by (simp add: map_of_eq_None_iff)
  with nv have "fst ` set g - insert start visited \<subset> fst ` set g - visited"
    by auto
  then have "card (fst ` set g - insert start visited) < card (fst ` set g - visited)"
    by (intro psubset_card_mono) auto
  then show "((g, to e, end, insert start visited), (g, start, end, visited))
      \<in> measure (\<lambda>(g, start, end, visited). card (fst ` set g - visited))"
    by simp
qed

declare findCablePathDFS_any.simps [simp del]

section \<open>The route planner\<close>

text \<open>
  A hop is a record parsed from the trace stream. \<open>lat\<close> and \<open>lon\<close> are numbers when
  the geo lookup gave them and absent otherwise; the other fields (\<open>hop\<close>, \<open>city\<close>,
  \<open>country\<close>, \<open>org\<close>) only appear in popups and in the debug text, which is not modelled,
  as \<open>map.flyTo\<close> is not. The marker loop of the map effect draws a
  hop when \<open>typeof hop.lat === 'number' && typeof hop.lon === 'number'\<close>
  (\<open>hasCoordinates\<close>); the route loops test \<open>a.lat && a.lon\<close>, the truthiness of the two
  numbers (\<open>truthyPoint\<close>, which also gives the point \<open>[a.lon, a.lat]\<close>).
\<close>

record hop =
  ip :: string
  lat :: "real option"
  lon :: "real option"

definition hasCoordinates :: "hop \<Rightarrow> bool" where
  "hasCoordinates h = (lat h \<noteq> None \<and> lon h \<noteq> None)"

definition truthy :: "real option \<Rightarrow> bool" where
  "truthy v = (case v of None \<Rightarrow> False | Some x \<Rightarrow> x \<noteq> 0)"

definition truthyPoint :: "hop \<Rightarrow> coord option" where
  "truthyPoint h =
     (if truthy (lat h) \<and> truthy (lon h)
      then (case (lon h, lat h) of (Some lo, Some la) \<Rightarrow> Some (lo, la) | _ \<Rightarrow> None)
      else None)"

text \<open>
  \<open>animateLine(coords, map, id)\<close> returns at once when \<open>coords\<close> has fewer than two
  points and otherwise puts the line \<open>id\<close> on the map. The planner is modelled by the list
  of lines it puts on the map, in order.
\<close>

type_synonym line = "string \<times> coord list"

definition animateLine :: "coord list \<Rightarrow> string \<Rightarrow> line list" where
  "animateLine coords ident = (if length coords < 2 then [] else [(ident, coords)])"

definition nearer :: "(coord \<Rightarrow> coord \<Rightarrow> jsnum) \<Rightarrow> coordMap \<Rightarrow> coord \<Rightarrow> string
    \<Rightarrow> string option \<times> jsnum \<Rightarrow> string option \<times> jsnum" where
  "nearer hav cm p k st =
     (case map_of cm k of
        None \<Rightarrow> st
      | Some c \<Rightarrow> (let dist = hav p c in if js_lt dist (snd st) then (Some k, dist) else st))"

definition getClosestCoordKey :: "(coord \<Rightarrow> coord \<Rightarrow> jsnum) \<Rightarrow> coordMap \<Rightarrow> coord
    \<Rightarrow> string option \<times> jsnum" where
  "getClosestCoordKey hav cm p = fold (nearer hav cm p) (map fst cm) (None, PosInf)"

definition cableLeg :: "graph \<Rightarrow> nat \<Rightarrow> string list \<Rightarrow> nat \<Rightarrow> line list" where
  "cableLeg g i path j =
     (case find (\<lambda>e. to e = path ! (j + 1)) (edgesOf g (path ! j)) of
        None \<Rightarrow> []
      | Some e \<Rightarrow> animateLine (geometry e) (''cable-'' @ digits i @ ''-'' @ digits j))"

definition seaLegs :: "graph \<Rightarrow> nat \<Rightarrow> string \<Rightarrow> string \<Rightarrow> coord \<Rightarrow> coord \<Rightarrow> line list" where
  "seaLegs g i keyA keyB coordA coordB =
     (case findCablePathDFS g keyA keyB {} of
        None \<Rightarrow> animateLine [coordA, coordB] (''fallback-sea-'' @ digits i)
      | Some path \<Rightarrow>
          if 1 < length path then concat (map (cableLeg g i path) [0..<length path - 1])
          else animateLine [coordA, coordB] (''fallback-sea-'' @ digits i))"

definition landingOf :: "coordMap \<Rightarrow> string option \<Rightarrow> (string \<times> coord) option" where
  "landingOf cm closest =
     (case closest of
        None \<Rightarrow> None
      | Some k \<Rightarrow> if k = [] then None
                  else (case map_of cm k of None \<Rightarrow> None | Some c \<Rightarrow> Some (k, c)))"

definition routePair :: "(coord \<Rightarrow> coord \<Rightarrow> jsnum) \<Rightarrow> graph \<Rightarrow> coordMap \<Rightarrow> nat \<Rightarrow> hop \<Rightarrow> hop
    \<Rightarrow> line list" where
  "routePair hav g cm i a b =
     (case (truthyPoint a, truthyPoint b) of
        (Some pa, Some pb) \<Rightarrow>
          (case (landingOf cm (fst (getClosestCoordKey hav cm pa)),
                 landingOf cm (fst (getClosestCoordKey hav cm pb))) of
             (Some (keyA, coordA), Some (keyB, coordB)) \<Rightarrow>
               animateLine [pa, coordA] (''to-'' @ digits i)
               @ seaLegs g i keyA keyB coordA coordB
               @ animateLine [coordB, pb] (''from-'' @ digits i)
           | _ \<Rightarrow> animateLine [pa, pb] (''fallback-'' @ digits i))
      | _ \<Rightarrow> [])"

definition directPair :: "nat \<Rightarrow> hop \<Rightarrow> hop \<Rightarrow> line list" where
  "directPair i a b =
     (case (truthyPoint a, truthyPoint b) of
        (Some pa, Some pb) \<Rightarrow> animateLine [pa, pb] (''direct-'' @ digits i)
      | _ \<Rightarrow> [])"

text \<open>
  Each dataset is fetched and parsed; a failure is caught and replaced by the empty feature
  list (\<open>.catch(() => ({ features: [] }))\<close>). \<open>None\<close> is the failed fetch.
\<close>

definition loadFeatures :: "'a list option \<Rightarrow> 'a list" where
  "loadFeatures r = (case r of None \<Rightarrow> [] | Some fs \<Rightarrow> fs)"

definition animateTrace :: "(coord \<Rightarrow> coord \<Rightarrow> jsnum) \<Rightarrow> (real \<Rightarrow> string) \<Rightarrow> bool
    \<Rightarrow> cable list option \<Rightarrow> landing list option \<Rightarrow> hop list \<Rightarrow> line list" where
  "animateTrace hav numberToString mapReady cablesFetched landingsFetched hops =
     (if \<not> mapReady \<or> length hops < 2 then []
      else
        let cables = loadFeatures cablesFetched;
            landings = loadFeatures landingsFetched
        in if length cables = 0 \<or> length landings = 0
           then concat (map (\<lambda>i. directPair i (hops ! i) (hops ! (i + 1))) [0..<length hops - 1])
           else
             let built = buildCableGraph hav numberToString cables landings
             in concat (map (\<lambda>i. routePair hav (fst built) (snd built) i (hops ! i) (hops ! (i + 1)))
                            [0..<length hops - 1]))"

section \<open>The animation driver\<close>

text \<open>
  The map is the drawing surface: named sources holding a line's coordinates and named
  layers, each drawing one source with a dash pattern, in the order they were added. Its
  calls behave as those of the map library do: \<open>addSource\<close> throws when a source of that
  id exists; \<open>addLayer\<close> reports an error event and changes nothing when a layer of that id
  exists or the source does not; \<open>removeSource\<close> reports an error event and changes nothing
  while a layer draws from the source; \<open>setPaintProperty\<close> changes nothing on a missing
  layer (the call is inside \<open>try\<close>/\<open>catch\<close>).

  A line that \<open>animateLine\<close> draws is one synchronous block (remove the layer and the
  source of that id if present, add the source, add the layer) followed by 40 animation
  frames, each a \<open>setPaintProperty\<close>. A step gives the map it leaves and the exception it
  throws, if any. The timers between lines change nothing on the map.
\<close>

record layer =
  source :: string
  dasharray :: "nat \<times> nat"

record surface =
  sources :: "(string \<times> coord list) list"
  layers :: "(string \<times> layer) list"

datatype step = AddLine string "coord list" | Frame string nat

definition getLayer :: "string \<Rightarrow> surface \<Rightarrow> layer option" where
  "getLayer ident m = map_of (layers m) ident"

definition getSource :: "string \<Rightarrow> surface \<Rightarrow> coord list option" where
  "getSource ident m = map_of (sources m) ident"

definition removeLayer :: "string \<Rightarrow> surface \<Rightarrow> surface" where
  "removeLayer ident m = m\<lparr>layers := AList.delete ident (layers m)\<rparr>"

definition sourceInUse :: "string \<Rightarrow> surface \<Rightarrow> bool" where
  "sourceInUse ident m = (ident \<in> set (map (\<lambda>l. source (snd l)) (layers m)))"

definition removeSource :: "string \<Rightarrow> surface \<Rightarrow> surface" where
  "removeSource ident m =
     (if sourceInUse ident m then m else m\<lparr>sources := AList.delete ident (sources m)\<rparr>)"

definition addSource :: "string \<Rightarrow> coord list \<Rightarrow> surface \<Rightarrow> js_error + surface" where
  "addSource ident coords m =
     (if getSource ident m \<noteq> None then Inl MapError
      else Inr (m\<lparr>sources := sources m @ [(ident, coords)]\<rparr>))"

definition addLayer :: "string \<Rightarrow> surface \<Rightarrow> surface" where
  "addLayer ident m =
     (if getLayer ident m \<noteq> None \<or> getSource ident m = None then m
      else m\<lparr>layers := layers m @ [(ident, \<lparr>source = ident, dasharray = (2, 4)\<rparr>)]\<rparr>)"

definition setPaintProperty :: "string \<Rightarrow> nat \<Rightarrow> surface \<Rightarrow> surface" where
  "setPaintProperty ident offset m =
     (case getLayer ident m of
        None \<Rightarrow> m
      | Some l \<Rightarrow> m\<lparr>layers := AList.update ident (l\<lparr>dasharray := (2, 4 + offset mod 20)\<rparr>) (layers m)\<rparr>)"

fun execStep :: "step \<Rightarrow> surface \<Rightarrow> js_error option \<times> surface" where
  "execStep (AddLine ident coords) m =
     (let m1 = (if getLayer ident m \<noteq> None then removeLayer ident m else m);
          m2 = (if getSource ident m1 \<noteq> None then removeSource ident m1 else m1)
      in case addSource ident coords m2 of
           Inl err \<Rightarrow> (Some err, m2)
         | Inr m3 \<Rightarrow> (None, addLayer ident m3))"
| "execStep (Frame ident offset) m = (None, setPaintProperty ident offset m)"

definition lineSteps :: "line \<Rightarrow> step list" where
  "lineSteps l = AddLine (fst l) (snd l) # map (Frame (fst l)) [1..<41]"

definition traceSteps :: "line list \<Rightarrow> step list" where
  "traceSteps ls = concat (map lineSteps ls)"

text \<open>
  Two calls of \<open>animateTrace\<close> on one map are two coroutines: each runs its steps in order
  and the event loop decides between every two steps whose turn it is. A schedule is the
  list of those decisions (\<open>True\<close>: the earlier call moves).
\<close>

fun interleave :: "bool list \<Rightarrow> 'a list \<Rightarrow> 'a list \<Rightarrow> 'a list" where
  "interleave sched [] ys = ys"
| "interleave sched (x # xs) [] = x # xs"
| "interleave [] (x # xs) (y # ys) = (x # xs) @ (y # ys)"
| "interleave (True # sched) (x # xs) (y # ys) = x # interleave sched xs (y # ys)"
| "interleave (False # sched) (x # xs) (y # ys) = y # interleave sched (x # xs) ys"

text \<open>
  Both calls run inside the \<open>try\<close>/\<open>catch\<close> of \<open>animateTrace\<close>: an exception thrown by
  a step ends the call that made it and is caught, the other call goes on. The state of two
  running calls is the map, the calls that have thrown, and the steps carried out so far,
  each with the call that made it (\<open>True\<close>: the earlier call).
\<close>

record run_state =
  surfaceNow :: surface
  thrown :: "bool set"
  executed :: "(bool \<times> step) list"

definition execTagged :: "bool \<times> step \<Rightarrow> run_state \<Rightarrow> run_state" where
  "execTagged ts st =
     (if fst ts \<in> thrown st then st
      else case execStep (snd ts) (surfaceNow st) of
             (None, m) \<Rightarrow> st\<lparr>surfaceNow := m, executed := executed st @ [ts]\<rparr>
           | (Some err, m) \<Rightarrow> st\<lparr>surfaceNow := m, thrown := insert (fst ts) (thrown st),
                                   executed := executed st @ [ts]\<rparr>)"

definition runBoth :: "bool list \<Rightarrow> line list \<Rightarrow> line list \<Rightarrow> surface \<Rightarrow> run_state" where
  "runBoth sched old new m =
     fold execTagged
       (interleave sched (map (Pair True) (traceSteps old)) (map (Pair False) (traceSteps new)))
       \<lparr>surfaceNow = m, thrown = {}, executed = []\<rparr>"

text \<open>The lines that a sequence of steps adds, in order, and the id a step works on.\<close>

fun drawn :: "step list \<Rightarrow> line list" where
  "drawn [] = []"
| "drawn (AddLine ident coords # steps) = (ident, coords) # drawn steps"
| "drawn (Frame ident offset # steps) = drawn steps"

fun stepId :: "step \<Rightarrow> string" where
  "stepId (AddLine ident coords) = ident"
| "stepId (Frame ident offset) = ident"

definition emptySurface :: surface where
  "emptySurface = \<lparr>sources = [], layers = []\<rparr>"

section \<open>Notions the claims are stated with\<close>



text \<open>The two invariants of graph construction, kept by every insertion.\<close>

definition symmetric :: "graph \<Rightarrow> bool" where
  "symmetric g = (\<forall>u. \<forall>e \<in> set (edgesOf g u). \<exists>e' \<in> set (edgesOf g (to e)).
      to e' = u \<and> cableName e' = cableName e \<and> geometry e' = rev (geometry e))"

definition endpointsOnly :: "(coord \<Rightarrow> coord \<Rightarrow> jsnum) \<Rightarrow> (real \<Rightarrow> string) \<Rightarrow> landing list
    \<Rightarrow> cable list \<Rightarrow> graph \<Rightarrow> bool" where
  "endpointsOnly hav nts ls cs g = (\<forall>k \<in> fst ` set g. edgesOf g k \<noteq> [] \<and>
      (\<exists>c \<in> set cs. \<exists>s e. resolveCable hav nts ls c = Some (s, e) \<and> (k = s \<or> k = e)))"

text \<open>No edge of the graph leads to an inherited name.\<close>

definition noInheritedTargets :: "graph \<Rightarrow> bool" where
  "noInheritedTargets g = (\<forall>k. \<forall>e \<in> set (edgesOf g k). to e \<notin> set inheritedNames)"

text \<open>
  A map on which every layer that draws from a source named by one of \<open>ids\<close> is the layer
  of that id. The map of the application is such a map for the ids of the route lines: its
  other layers draw from \<open>cables\<close>, \<open>landings\<close> and the sources of the base style.
\<close>

definition ownSources :: "string set \<Rightarrow> surface \<Rightarrow> bool" where
  "ownSources ids m = (\<forall>l \<in> set (layers m). source (snd l) \<in> ids \<longrightarrow> fst l = source (snd l))"



text \<open>
  A number rounded to 3 decimal places, in thousandths, ties away from zero (the rounding
  of \<open>toFixed\<close>).
\<close>

definition roundTo3 :: "real \<Rightarrow> int" where
  "roundTo3 x = (if x < 0 then - \<lfloor>- x * 1000 + 1 / 2\<rfloor> else \<lfloor>x * 1000 + 1 / 2\<rfloor>)"

section \<open>Example data\<close>

text \<open>
  A stand-in for the haversine distance on the examples: 111 km for each degree of
  longitude and of latitude. \<open>noExponent\<close> stands for \<open>ToString\<close> on numbers from
  \<open>10^21\<close> on, which no example reaches.
\<close>

definition gridDistance :: "coord \<Rightarrow> coord \<Rightarrow> jsnum" where
  "gridDistance p q = Fin (111 * (\<bar>fst p - fst q\<bar> + \<bar>snd p - snd q\<bar>))"

definition noExponent :: "real \<Rightarrow> string" where
  "noExponent x = []"

definition landingA :: landing where
  "landingA = \<lparr>landing_name = ''A'', landing_coordinates = (10, 20)\<rparr>"

definition landingB :: landing where
  "landingB = \<lparr>landing_name = ''B'', landing_coordinates = (55, 20)\<rparr>"

definition cableAB :: cable where
  "cableAB = \<lparr>cable_name = ''AB'', cable_geometry = LineString [(10, 20), (30, 25), (55, 20)]\<rparr>"

definition landingC :: landing where
  "landingC = \<lparr>landing_name = ''C'', landing_coordinates = (100, 50)\<rparr>"

definition hopAt :: "real \<Rightarrow> real \<Rightarrow> hop" where
  "hopAt lo la = \<lparr>ip = ''192.0.2.1'', lat = Some la, lon = Some lo\<rparr>"

text \<open>
  Two requests for the same two hops on one map: the first with both datasets loaded, the
  second with both fetches failed. \<open>alternate\<close> is the schedule in which the two calls take
  turns, the first request moving first.
\<close>

definition firstRequest :: "line list" where
  "firstRequest = animateTrace gridDistance noExponent True (Some [cableAB])
     (Some [landingA, landingB, landingC]) [hopAt 11 21, hopAt 54 19]"

definition secondRequest :: "line list" where
  "secondRequest = animateTrace gridDistance noExponent True None None [hopAt 11 21, hopAt 54 19]"

definition alternate :: "bool list" where
  "alternate = concat (replicate 60 [True, False])"

text \<open>Two landings on the equator, joined by a cable.\<close>

definition equatorA :: landing where
  "equatorA = \<lparr>landing_name = ''EA'', landing_coordinates = (10, 0)\<rparr>"

definition equatorB :: landing where
  "equatorB = \<lparr>landing_name = ''EB'', landing_coordinates = (55, 0)\<rparr>"

definition cableEquator :: cable where
  "cableEquator = \<lparr>cable_name = ''EQ'', cable_geometry = LineString [(10, 0), (55, 0)]\<rparr>"

text \<open>
  Two landings 30 m apart, which have the same key, and a cable from one to the other.
\<close>

definition nearA :: landing where
  "nearA = \<lparr>landing_name = ''NA'', landing_coordinates = (100001 / 10000, 200001 / 10000)\<rparr>"

definition nearB :: landing where
  "nearB = \<lparr>landing_name = ''NB'', landing_coordinates = (100003 / 10000, 200003 / 10000)\<rparr>"

definition cableNear :: cable where
  "cableNear = \<lparr>cable_name = ''N'',
     cable_geometry = LineString [(100001 / 10000, 200001 / 10000), (100003 / 10000, 200003 / 10000)]\<rparr>"

text \<open>A cable from the second of the two near landings to the landing \<open>B\<close>.\<close>

definition cableNearB :: cable where
  "cableNearB = \<lparr>cable_name = ''NB-B'',
     cable_geometry = LineString [(100003 / 10000, 200003 / 10000), (55, 20)]\<rparr>"

text \<open>A map on which a layer of another id draws from the source \<open>to-0\<close>.\<close>

definition blockedSurface :: surface where
  "blockedSurface =
     \<lparr>sources = [(''to-0'', [(0, 0), (1, 1)])],
      layers = [(''outline'', \<lparr>source = ''to-0'', dasharray = (1, 1)\<rparr>)]\<rparr>"

text \<open>
  A triangle \<open>a, b, c\<close> and a separate pair \<open>d, e\<close>, every cable stored in both
  directions.
\<close>

definition link :: "string \<Rightarrow> edge" where
  "link t = \<lparr>to = t, cableName = ''cable'', geometry = [(0, 0), (1, 1)]\<rparr>"

definition triangle :: graph where
  "triangle =
     [(''a'', [link ''b'', link ''c'']),
      (''b'', [link ''a'', link ''c'']),
      (''c'', [link ''a'', link ''b'']),
      (''d'', [link ''e'']),
      (''e'', [link ''d''])]"

section \<open>The cable graph: symmetry and vertices\<close>

subsection \<open>Reading the graph after an insertion\<close>

lemma edgesOf_ensureKey: "edgesOf (ensureKey k g) u = edgesOf g u"
  by (simp add: ensureKey_def edgesOf_def update_conv')

lemma edgesOf_pushEdge:
  "edgesOf (pushEdge k e g) u = (if u = k then edgesOf g k @ [e] else edgesOf g u)"
  by (simp add: pushEdge_def edgesOf_def update_conv')

lemma edgesOf_addBoth:
  "s \<noteq> e \<Longrightarrow> edgesOf (addBoth s e nm cs g) u =
     (if u = s then edgesOf g s @ [\<lparr>to = e, cableName = nm, geometry = cs\<rparr>]
      else if u = e then edgesOf g e @ [\<lparr>to = s, cableName = nm, geometry = rev cs\<rparr>]
      else edgesOf g u)"
  by (simp add: addBoth_def edgesOf_pushEdge edgesOf_ensureKey)

lemma keys_ensureKey: "fst ` set (ensureKey k g) = insert k (fst ` set g)"
  by (auto simp: ensureKey_def dom_update map_of_eq_None_iff)

lemma keys_pushEdge: "fst ` set (pushEdge k e g) = insert k (fst ` set g)"
  by (simp add: pushEdge_def dom_update)

lemma keys_addBoth: "fst ` set (addBoth s e nm cs g) = insert s (insert e (fst ` set g))"
  by (auto simp: addBoth_def keys_pushEdge keys_ensureKey)

lemma resolveCable_distinct: "resolveCable hav nts ls c = Some (s, e) \<Longrightarrow> s \<noteq> e"
  by (auto simp: resolveCable_def Let_def split: if_splits option.splits)

lemma resolveCable_ends:
  assumes "resolveCable hav nts ls c = Some (s, e)"
  shows "\<exists>sl el. 2 \<le> length (flatten (cable_geometry c))
      \<and> findClosestLanding hav nts ls (hd (flatten (cable_geometry c))) = Some sl
      \<and> findClosestLanding hav nts ls (last (flatten (cable_geometry c))) = Some el
      \<and> lkey sl \<noteq> lkey el \<and> s = lkey sl \<and> e = lkey el"
  using assms by (auto simp: resolveCable_def Let_def split: if_splits option.splits)

lemma closer_fold_key:
  "fst (fold (closer hav nts c) ls st) = Some cl \<Longrightarrow>
     fst st = Some cl \<or> (\<exists>l \<in> set ls. lkey cl = coordKey nts (landing_coordinates l))"
proof (induction ls arbitrary: st)
  case Nil then show ?case by simp
next
  case (Cons l ls)
  from Cons.IH[OF Cons.prems[simplified]]
  show ?case by (auto simp: closer_def Let_def split: if_splits)
qed

lemma findClosestLanding_is_landing:
  "findClosestLanding hav nts ls c = Some cl \<Longrightarrow>
     \<exists>l \<in> set ls. lkey cl = coordKey nts (landing_coordinates l)"
  unfolding findClosestLanding_def by (drule closer_fold_key) simp

lemma buildGraph_one_cable:
  assumes "resolveCable hav nts ls c = Some (s, e)"
  shows "buildGraph hav nts [c] ls =
     [(s, [\<lparr>to = e, cableName = cable_name c, geometry = flatten (cable_geometry c)\<rparr>]),
      (e, [\<lparr>to = s, cableName = cable_name c, geometry = rev (flatten (cable_geometry c))\<rparr>])]"
proof -
  from assms have "s \<noteq> e" by (rule resolveCable_distinct)
  then have "e \<noteq> s" by simp
  with \<open>s \<noteq> e\<close> assms show ?thesis
    by (simp add: buildGraph_def addCable_def addBoth_def ensureKey_def pushEdge_def edgesOf_def)
qed

subsection \<open>Symmetry\<close>

lemma symmetric_addBoth: "s \<noteq> e \<Longrightarrow> symmetric g \<Longrightarrow> symmetric (addBoth s e nm cs g)"
  unfolding symmetric_def by (auto simp: edgesOf_addBoth)

lemma symmetric_addCable: "symmetric g \<Longrightarrow> symmetric (addCable hav nts ls c g)"
  by (auto simp: addCable_def symmetric_addBoth dest: resolveCable_distinct split: option.splits)

lemma symmetric_fold: "symmetric g \<Longrightarrow> symmetric (fold (addCable hav nts ls) cs g)"
  by (induction cs arbitrary: g) (simp_all add: symmetric_addCable)

lemma symmetric_buildGraph: "symmetric (buildGraph hav nts cables landings)"
  unfolding buildGraph_def by (rule symmetric_fold) (simp add: symmetric_def edgesOf_def)

subsection \<open>Keys\<close>

lemma endpointsOnly_addCable:
  assumes "endpointsOnly hav nts ls cs g" and "c \<in> set cs"
  shows "endpointsOnly hav nts ls cs (addCable hav nts ls c g)"
proof (cases "resolveCable hav nts ls c")
  case None
  with assms(1) show ?thesis by (simp add: addCable_def)
next
  case (Some se)
  obtain s e where se: "se = (s, e)" by (cases se)
  with Some have r: "resolveCable hav nts ls c = Some (s, e)" by simp
  then have ne: "s \<noteq> e" by (rule resolveCable_distinct)
  show ?thesis
    unfolding endpointsOnly_def
  proof
    fix k assume "k \<in> fst ` set (addCable hav nts ls c g)"
    then have k: "k = s \<or> k = e \<or> k \<in> fst ` set g"
      by (auto simp: addCable_def r keys_addBoth)
    have "edgesOf (addCable hav nts ls c g) k \<noteq> []"
      using k assms(1) ne unfolding endpointsOnly_def
      by (auto simp: addCable_def r edgesOf_addBoth)
    moreover have "\<exists>c \<in> set cs. \<exists>s e. resolveCable hav nts ls c = Some (s, e) \<and> (k = s \<or> k = e)"
      using k assms r unfolding endpointsOnly_def by blast
    ultimately show "edgesOf (addCable hav nts ls c g) k \<noteq> [] \<and>
      (\<exists>c \<in> set cs. \<exists>s e. resolveCable hav nts ls c = Some (s, e) \<and> (k = s \<or> k = e))" by simp
  qed
qed

lemma endpointsOnly_fold:
  "endpointsOnly hav nts ls cs g \<Longrightarrow> set ds \<subseteq> set cs \<Longrightarrow>
     endpointsOnly hav nts ls cs (fold (addCable hav nts ls) ds g)"
  by (induction ds arbitrary: g) (simp_all add: endpointsOnly_addCable)

lemma endpointsOnly_buildGraph: "endpointsOnly hav nts ls cs (buildGraph hav nts cs ls)"
  unfolding buildGraph_def by (rule endpointsOnly_fold) (simp_all add: endpointsOnly_def)

subsection \<open>The example graph\<close>

lemma key_A: "coordKey noExponent (10, 20) = ''10.000,20.000''"
  by (simp add: coordKey_def toFixed_def fixedDigits_def Let_def digits.simps digit_chars_def)

lemma key_B: "coordKey noExponent (55, 20) = ''55.000,20.000''"
  by (simp add: coordKey_def toFixed_def fixedDigits_def Let_def digits.simps digit_chars_def)

lemma key_C: "coordKey noExponent (100, 50) = ''100.000,50.000''"
  by (simp add: coordKey_def toFixed_def fixedDigits_def Let_def digits.simps digit_chars_def)

lemma key_NA: "coordKey noExponent (100001 / 10000, 200001 / 10000) = ''10.000,20.000''"
  by (simp add: coordKey_def toFixed_def fixedDigits_def Let_def digits.simps digit_chars_def)

lemma key_NB: "coordKey noExponent (100003 / 10000, 200003 / 10000) = ''10.000,20.000''"
  by (simp add: coordKey_def toFixed_def fixedDigits_def Let_def digits.simps digit_chars_def)

lemma example_graph:
  "buildCableGraph gridDistance noExponent [cableAB] [landingA, landingB, landingC] =
     ([(''10.000,20.000'',
         [\<lparr>to = ''55.000,20.000'', cableName = ''AB'', geometry = [(10, 20), (30, 25), (55, 20)]\<rparr>]),
       (''55.000,20.000'',
         [\<lparr>to = ''10.000,20.000'', cableName = ''AB'', geometry = [(55, 20), (30, 25), (10, 20)]\<rparr>])],
      [(''10.000,20.000'', (10, 20)), (''55.000,20.000'', (55, 20)), (''100.000,50.000'', (100, 50))])"
  by (simp add: buildCableGraph_def buildGraph_def buildCoordMap_def addCable_def resolveCable_def
      findClosestLanding_def closer_def cableAB_def landingA_def landingB_def landingC_def
      flatten_def key_A key_B key_C gridDistance_def PROXIMITY_THRESHOLD_def addBoth_def
      pushEdge_def ensureKey_def edgesOf_def Let_def)

subsection \<open>Claims about the graph builder\<close>

text \<open>
  C3. For every cables and landings input, the graph returned by \<open>buildCableGraph\<close> is
  symmetric: an edge from \<open>u\<close> to \<open>v\<close> with geometry \<open>G\<close> has a partner edge from
  \<open>v\<close> to \<open>u\<close> with the same cable name and the geometry \<open>rev G\<close>.
\<close>

theorem buildCableGraph_symmetric:
  assumes "e \<in> set (edgesOf (fst (buildCableGraph hav nts cables landings)) u)"
  shows "\<exists>e' \<in> set (edgesOf (fst (buildCableGraph hav nts cables landings)) (to e)).
           to e' = u \<and> cableName e' = cableName e \<and> geometry e' = rev (geometry e)"
  using assms symmetric_buildGraph[of hav nts cables landings]
  unfolding symmetric_def buildCableGraph_def by simp

theorem buildCableGraph_symmetric_witness:
  "\<lparr>to = ''55.000,20.000'', cableName = ''AB'', geometry = [(10, 20), (30, 25), (55, 20)]\<rparr>
     \<in> set (edgesOf (fst (buildCableGraph gridDistance noExponent [cableAB]
                              [landingA, landingB, landingC])) ''10.000,20.000'')
   \<and> (\<exists>e' \<in> set (edgesOf (fst (buildCableGraph gridDistance noExponent [cableAB]
                              [landingA, landingB, landingC])) ''55.000,20.000'').
         to e' = ''10.000,20.000'' \<and> cableName e' = ''AB''
         \<and> geometry e' = [(55, 20), (30, 25), (10, 20)])"
proof -
  have h: "\<lparr>to = ''55.000,20.000'', cableName = ''AB'', geometry = [(10, 20), (30, 25), (55, 20)]\<rparr>
     \<in> set (edgesOf (fst (buildCableGraph gridDistance noExponent [cableAB]
                              [landingA, landingB, landingC])) ''10.000,20.000'')"
    by (simp add: example_graph edgesOf_def)
  from buildCableGraph_symmetric[OF h] h show ?thesis by simp
qed

lemma near_ends3:
  "findClosestLanding gridDistance noExponent [nearA, nearB, landingB] (100003 / 10000, 200003 / 10000)
     = Some \<lparr>lkey = ''10.000,20.000'', lcoord = landing_coordinates nearB, lname = landing_name nearB\<rparr>"
  "findClosestLanding gridDistance noExponent [nearA, nearB, landingB] (55, 20)
     = Some \<lparr>lkey = ''55.000,20.000'', lcoord = landing_coordinates landingB, lname = landing_name landingB\<rparr>"
  by (simp_all add: findClosestLanding_def closer_def nearA_def nearB_def landingB_def key_NA key_NB
      key_B gridDistance_def PROXIMITY_THRESHOLD_def Let_def)

lemma near_graph3:
  "fst (buildCableGraph gridDistance noExponent [cableNearB] [nearA, nearB, landingB]) =
     [(''10.000,20.000'',
        [\<lparr>to = ''55.000,20.000'', cableName = ''NB-B'',
           geometry = [(100003 / 10000, 200003 / 10000), (55, 20)]\<rparr>]),
      (''55.000,20.000'',
        [\<lparr>to = ''10.000,20.000'', cableName = ''NB-B'',
           geometry = [(55, 20), (100003 / 10000, 200003 / 10000)]\<rparr>])]"
proof -
  have "resolveCable gridDistance noExponent [nearA, nearB, landingB] cableNearB
      = Some (''10.000,20.000'', ''55.000,20.000'')"
    by (simp add: resolveCable_def cableNearB_def flatten_def near_ends3)
  from buildGraph_one_cable[OF this] show ?thesis
    by (simp add: buildCableGraph_def cableNearB_def flatten_def)
qed

text \<open>
  C4, as stated: every key of the graph is an endpoint of an inserted cable edge, and a
  landing to which no cable endpoint resolves never appears as a graph key. The second part
  fails for a landing that shares its key with another: of the landings \<open>NA\<close>, \<open>NB\<close>
  (30 m apart, one key) and \<open>B\<close>, the only cable runs from \<open>NB\<close> to \<open>B\<close>; its ends
  resolve to \<open>NB\<close> and \<open>B\<close>, none to \<open>NA\<close>, and the key of \<open>NA\<close> is a key of the
  graph.
\<close>

theorem shared_key_landing_counterexample:
  "flatten (cable_geometry cableNearB) = [(100003 / 10000, 200003 / 10000), (55, 20)]
   \<and> findClosestLanding gridDistance noExponent [nearA, nearB, landingB] (100003 / 10000, 200003 / 10000)
       = Some \<lparr>lkey = coordKey noExponent (landing_coordinates nearB),
                lcoord = landing_coordinates nearB, lname = landing_name nearB\<rparr>
   \<and> findClosestLanding gridDistance noExponent [nearA, nearB, landingB] (55, 20)
       = Some \<lparr>lkey = coordKey noExponent (landing_coordinates landingB),
                lcoord = landing_coordinates landingB, lname = landing_name landingB\<rparr>
   \<and> landing_coordinates nearA \<noteq> landing_coordinates nearB
   \<and> landing_coordinates nearA \<noteq> landing_coordinates landingB
   \<and> landing_name nearA \<noteq> landing_name nearB \<and> landing_name nearA \<noteq> landing_name landingB
   \<and> coordKey noExponent (landing_coordinates nearA)
       \<in> fst ` set (fst (buildCableGraph gridDistance noExponent [cableNearB] [nearA, nearB, landingB]))"
proof -
  have k: "coordKey noExponent (landing_coordinates nearA) = ''10.000,20.000''"
    "coordKey noExponent (landing_coordinates nearB) = ''10.000,20.000''"
    "coordKey noExponent (landing_coordinates landingB) = ''55.000,20.000''"
    by (simp_all add: nearA_def nearB_def landingB_def key_NA key_NB key_B)
  have d: "landing_coordinates nearA \<noteq> landing_coordinates nearB"
    "landing_coordinates nearA \<noteq> landing_coordinates landingB"
    "landing_name nearA \<noteq> landing_name nearB" "landing_name nearA \<noteq> landing_name landingB"
    by (simp_all add: nearA_def nearB_def landingB_def)
  have f: "flatten (cable_geometry cableNearB) = [(100003 / 10000, 200003 / 10000), (55, 20)]"
    by (simp add: cableNearB_def flatten_def)
  have g: "''10.000,20.000''
       \<in> fst ` set (fst (buildCableGraph gridDistance noExponent [cableNearB] [nearA, nearB, landingB]))"
    by (simp add: near_graph3)
  show ?thesis
    unfolding k using near_ends3 d f g by (simp only: simp_thms)
qed

text \<open>
  C4, amended: every key of the graph returned by \<open>buildCableGraph\<close> has a non-empty edge
  list, is the key of a landing, and is the key that the first or the last coordinate of some
  inserted cable resolved to. So a coordinate key that no end of an inserted cable resolves
  to is not a key of the graph.
\<close>

theorem buildCableGraph_keys_are_endpoints:
  assumes "k \<in> fst ` set (fst (buildCableGraph hav nts cables landings))"
  shows "edgesOf (fst (buildCableGraph hav nts cables landings)) k \<noteq> [] \<and>
    (\<exists>l \<in> set landings. k = coordKey nts (landing_coordinates l)) \<and>
    (\<exists>c \<in> set cables. \<exists>sl el.
        2 \<le> length (flatten (cable_geometry c))
      \<and> findClosestLanding hav nts landings (hd (flatten (cable_geometry c))) = Some sl
      \<and> findClosestLanding hav nts landings (last (flatten (cable_geometry c))) = Some el
      \<and> lkey sl \<noteq> lkey el \<and> (k = lkey sl \<or> k = lkey el))"
proof -
  let ?g = "buildGraph hav nts cables landings"
  from assms have k: "k \<in> fst ` set ?g" by (simp add: buildCableGraph_def)
  from endpointsOnly_buildGraph[of hav nts landings cables] k
  have ne: "edgesOf ?g k \<noteq> []"
    and "\<exists>c \<in> set cables. \<exists>s e. resolveCable hav nts landings c = Some (s, e) \<and> (k = s \<or> k = e)"
    unfolding endpointsOnly_def by auto
  then obtain c s e where c: "c \<in> set cables"
    and r: "resolveCable hav nts landings c = Some (s, e)" and ks: "k = s \<or> k = e" by blast
  from resolveCable_ends[OF r] obtain sl el where
    ends: "2 \<le> length (flatten (cable_geometry c))"
      "findClosestLanding hav nts landings (hd (flatten (cable_geometry c))) = Some sl"
      "findClosestLanding hav nts landings (last (flatten (cable_geometry c))) = Some el"
      "lkey sl \<noteq> lkey el" "s = lkey sl" "e = lkey el" by blast
  from ks ends(5,6) have kl: "k = lkey sl \<or> k = lkey el" by simp
  with findClosestLanding_is_landing[OF ends(2)] findClosestLanding_is_landing[OF ends(3)]
  have "\<exists>l \<in> set landings. k = coordKey nts (landing_coordinates l)" by auto
  moreover from c ends kl have "\<exists>c \<in> set cables. \<exists>sl el.
        2 \<le> length (flatten (cable_geometry c))
      \<and> findClosestLanding hav nts landings (hd (flatten (cable_geometry c))) = Some sl
      \<and> findClosestLanding hav nts landings (last (flatten (cable_geometry c))) = Some el
      \<and> lkey sl \<noteq> lkey el \<and> (k = lkey sl \<or> k = lkey el)" by blast
  ultimately show ?thesis using ne by (simp add: buildCableGraph_def)
qed

theorem buildCableGraph_keys_are_endpoints_witness:
  "''55.000,20.000'' \<in> fst ` set (fst (buildCableGraph gridDistance noExponent [cableAB]
                                          [landingA, landingB, landingC]))
   \<and> edgesOf (fst (buildCableGraph gridDistance noExponent [cableAB]
                      [landingA, landingB, landingC])) ''55.000,20.000'' \<noteq> []"
proof -
  have h: "''55.000,20.000'' \<in> fst ` set (fst (buildCableGraph gridDistance noExponent [cableAB]
                                          [landingA, landingB, landingC]))"
    by (simp add: example_graph)
  from buildCableGraph_keys_are_endpoints[OF h] h show ?thesis by simp
qed

section \<open>The path finder: correctness\<close>

subsection \<open>Keys that are not inherited property names\<close>

lemma lookupEdges_own: "map_of g k = Some es \<Longrightarrow> lookupEdges g k = Inr es"
  by (simp add: lookupEdges_def)

lemma lookupEdges_plain: "k \<notin> set inheritedNames \<Longrightarrow> lookupEdges g k = Inr (edgesOf g k)"
  by (simp add: lookupEdges_def edgesOf_def split: option.splits)

lemma lookupEdges_inherited:
  "k \<in> set inheritedNames \<Longrightarrow> k \<notin> fst ` set g \<Longrightarrow> lookupEdges g k = Inl TypeError"
  by (simp add: lookupEdges_def map_of_eq_None_iff[THEN iffD2])

lemma comma_not_inherited: "CHR '','' \<in> set k \<Longrightarrow> k \<notin> set inheritedNames"
  by (auto simp: inheritedNames_def)

lemma coordKey_not_inherited: "coordKey nts c \<notin> set inheritedNames"
  by (rule comma_not_inherited) (simp add: coordKey_def)

lemma firstOutcome_Inr:
  "firstOutcome (map (\<lambda>x. Inr (f x)) xs) = Inr (firstPath (map f xs))"
proof (induction xs)
  case Nil
  then show ?case by simp
next
  case (Cons x xs)
  then show ?case by (cases "f x") simp_all
qed

lemma dfs_any_plain:
  "noInheritedTargets g \<Longrightarrow> start \<notin> set inheritedNames \<Longrightarrow>
     findCablePathDFS_any g start end visited = Inr (findCablePathDFS g start end visited)"
proof (induction g start "end" visited rule: findCablePathDFS.induct)
  case (1 g start "end" visited)
  show ?case
  proof (cases "start = end \<or> start \<in> visited")
    case True
    then show ?thesis by (auto simp: findCablePathDFS.simps findCablePathDFS_any.simps)
  next
    case False
    then have ne: "start \<noteq> end" and nv: "start \<notin> visited" by auto
    define f where "f = (\<lambda>e::edge. if to e \<notin> insert start visited
                        then map_option ((#) start)
                               (findCablePathDFS g (to e) end (insert start visited))
                        else None)"
    have "map (\<lambda>e. if to e \<notin> insert start visited
                            then map_sum id (map_option ((#) start))
                                   (findCablePathDFS_any g (to e) end (insert start visited))
                            else Inr None) (edgesOf g start)
        = map (\<lambda>e. Inr (f e)) (edgesOf g start)"
    proof (rule map_cong[OF refl])
      fix e assume e: "e \<in> set (edgesOf g start)"
      with "1.prems"(1) have t: "to e \<notin> set inheritedNames"
        by (auto simp: noInheritedTargets_def)
      show "(if to e \<notin> insert start visited
                            then map_sum id (map_option ((#) start))
                                   (findCablePathDFS_any g (to e) end (insert start visited))
                            else Inr None) = Inr (f e)"
      proof (cases "to e \<notin> insert start visited")
        case True
        from "1.IH"[OF ne nv e True "1.prems"(1) t] True show ?thesis
          by (simp add: f_def)
      next
        case False
        then show ?thesis by (auto simp: f_def)
      qed
    qed
    then have "firstOutcome (map (\<lambda>e. if to e \<notin> insert start visited
                            then map_sum id (map_option ((#) start))
                                   (findCablePathDFS_any g (to e) end (insert start visited))
                            else Inr None) (edgesOf g start))
        = Inr (firstPath (map f (edgesOf g start)))"
      by (simp only: firstOutcome_Inr)
    with ne nv show ?thesis
      by (simp add: findCablePathDFS.simps[of g start "end" visited]
          findCablePathDFS_any.simps[of g start "end" visited]
          lookupEdges_plain[OF "1.prems"(2)] f_def)
  qed
qed

text \<open>The graph that \<open>buildCableGraph\<close> returns has coordinate keys only.\<close>

lemma buildGraph_key_is_coordKey:
  assumes "k \<in> fst ` set (buildGraph hav nts cables landings)"
  shows "\<exists>l \<in> set landings. k = coordKey nts (landing_coordinates l)"
proof -
  from endpointsOnly_buildGraph[of hav nts landings cables] assms
  obtain c s e where r: "resolveCable hav nts landings c = Some (s, e)" and ks: "k = s \<or> k = e"
    unfolding endpointsOnly_def by blast
  from resolveCable_ends[OF r] obtain sl el where
    ends: "findClosestLanding hav nts landings (hd (flatten (cable_geometry c))) = Some sl"
      "findClosestLanding hav nts landings (last (flatten (cable_geometry c))) = Some el"
      "s = lkey sl" "e = lkey el" by blast
  with ks findClosestLanding_is_landing[OF ends(1)] findClosestLanding_is_landing[OF ends(2)]
  show ?thesis by auto
qed

lemma buildGraph_noInheritedTargets: "noInheritedTargets (buildGraph hav nts cables landings)"
  unfolding noInheritedTargets_def
proof (intro allI ballI)
  fix k e assume e: "e \<in> set (edgesOf (buildGraph hav nts cables landings) k)"
  from symmetric_buildGraph[of hav nts cables landings] e
  have "edgesOf (buildGraph hav nts cables landings) (to e) \<noteq> []"
    unfolding symmetric_def by fastforce
  then have "map_of (buildGraph hav nts cables landings) (to e) \<noteq> None"
    by (cases "map_of (buildGraph hav nts cables landings) (to e)") (simp_all add: edgesOf_def)
  then have "to e \<in> fst ` set (buildGraph hav nts cables landings)"
    by (simp add: map_of_eq_None_iff)
  from buildGraph_key_is_coordKey[OF this] show "to e \<notin> set inheritedNames"
    by (auto simp: coordKey_not_inherited)
qed

text \<open>
  So on the graph of \<open>buildCableGraph\<close>, from any coordinate key, the lookup never throws
  and the call is the \<open>findCablePathDFS\<close> of the sections above.
\<close>

lemma cable_graph_dfs_never_throws:
  "findCablePathDFS_any (fst (buildCableGraph hav nts cables landings)) (coordKey nts c) end visited
     = Inr (findCablePathDFS (fst (buildCableGraph hav nts cables landings)) (coordKey nts c) end visited)"
  by (simp add: buildCableGraph_def dfs_any_plain buildGraph_noInheritedTargets coordKey_not_inherited)

text \<open>
  C10, as stated: called with a start key that is not a vertex of the graph and a different
  end key, \<open>findCablePathDFS\<close> returns \<open>null\<close> without raising an error, since the
  guarded lookup makes a missing key a vertex with no edges. The guard \<open>|| []\<close> only
  catches a falsy lookup: for the missing key \<open>constructor\<close> the lookup gives the
  inherited function and the loop throws.
\<close>

theorem inherited_name_lookup_throws:
  "''constructor'' \<notin> fst ` set (fst (buildCableGraph gridDistance noExponent [cableAB]
                                        [landingA, landingB, landingC]))
   \<and> ''constructor'' \<noteq> ''10.000,20.000''
   \<and> findCablePathDFS_any (fst (buildCableGraph gridDistance noExponent [cableAB]
                                   [landingA, landingB, landingC]))
        ''constructor'' ''10.000,20.000'' {} = Inl TypeError"
  by (simp add: example_graph findCablePathDFS_any.simps lookupEdges_def inheritedNames_def)

text \<open>
  C10, amended: called with a start key that is not a vertex of the graph and not a name
  that plain objects inherit, and a different end key, \<open>findCablePathDFS\<close> returns
  \<open>null\<close> without raising an error; every coordinate key is such a key. The example is
  the key of the landing \<open>C\<close>, which is in the coordinate map and not in the graph.
\<close>

theorem findCablePathDFS_any_missing_start:
  "(start \<notin> fst ` set g \<and> start \<notin> set inheritedNames \<and> start \<noteq> end
      \<longrightarrow> findCablePathDFS_any g start end {} = Inr None)
   \<and> coordKey nts c \<notin> set inheritedNames"
proof (intro conjI impI)
  assume h: "start \<notin> fst ` set g \<and> start \<notin> set inheritedNames \<and> start \<noteq> end"
  then have "map_of g start = None" by (simp add: map_of_eq_None_iff)
  with h show "findCablePathDFS_any g start end {} = Inr None"
    by (simp add: findCablePathDFS_any.simps lookupEdges_def)
next
  show "coordKey nts c \<notin> set inheritedNames" by (rule coordKey_not_inherited)
qed

theorem findCablePathDFS_any_missing_start_witness:
  "''100.000,50.000'' \<in> fst ` set (snd (buildCableGraph gridDistance noExponent [cableAB]
                                           [landingA, landingB, landingC]))
   \<and> ''100.000,50.000'' \<notin> fst ` set (fst (buildCableGraph gridDistance noExponent [cableAB]
                                           [landingA, landingB, landingC]))
   \<and> findCablePathDFS_any (fst (buildCableGraph gridDistance noExponent [cableAB]
                               [landingA, landingB, landingC]))
        ''100.000,50.000'' ''10.000,20.000'' {} = Inr None"
proof -
  have h: "''100.000,50.000'' \<notin> fst ` set (fst (buildCableGraph gridDistance noExponent [cableAB]
                                           [landingA, landingB, landingC]))
      \<and> ''100.000,50.000'' \<notin> set inheritedNames \<and> ''100.000,50.000'' \<noteq> ''10.000,20.000''"
    by (simp add: example_graph inheritedNames_def)
  with findCablePathDFS_any_missing_start[of "''100.000,50.000''"
      "fst (buildCableGraph gridDistance noExponent [cableAB] [landingA, landingB, landingC])"
      "''10.000,20.000''"]
  have "findCablePathDFS_any (fst (buildCableGraph gridDistance noExponent [cableAB]
                               [landingA, landingB, landingC]))
        ''100.000,50.000'' ''10.000,20.000'' {} = Inr None" by blast
  with h show ?thesis by (simp add: example_graph)
qed

subsection \<open>The first success of a list of outcomes\<close>




subsection \<open>Every returned path is a simple path of the graph\<close>


subsection \<open>A simple path that avoids the visited set is enough to succeed\<close>


subsection \<open>Reachability and simple paths\<close>




subsection \<open>The triangle example\<close>






lemma triangle_dfs_a_d: "findCablePathDFS triangle ''a'' ''d'' {} = None"
  by (simp add: findCablePathDFS.simps triangle_def edgesOf_def link_def)



subsection \<open>The paths in edge order are the simple paths\<close>




subsection \<open>Claims about the path finder\<close>





section \<open>Coordinate keys\<close>

lemma toFixed_same:
  assumes "\<bar>x\<bar> < 10 ^ 21" and "\<bar>y\<bar> < 10 ^ 21"
    and "(x < 0) = (y < 0)" and "roundTo3 x = roundTo3 y"
  shows "toFixed nts 3 x = toFixed nts 3 y"
proof -
  have "\<lfloor>\<bar>x\<bar> * 10 ^ 3 + 1 / 2\<rfloor> = \<lfloor>\<bar>y\<bar> * 10 ^ 3 + 1 / 2\<rfloor>"
  proof (cases "x < 0")
    case True
    with assms(3) have "y < 0" by simp
    with True assms(4) show ?thesis by (simp add: roundTo3_def abs_if)
  next
    case False
    with assms(3) have "\<not> y < 0" by simp
    with False assms(4) show ?thesis by (simp add: roundTo3_def abs_if)
  qed
  moreover from assms(1) have "\<not> 10 ^ 21 \<le> \<bar>x\<bar>" by (simp only: not_le)
  moreover from assms(2) have "\<not> 10 ^ 21 \<le> \<bar>y\<bar>" by (simp only: not_le)
  ultimately show ?thesis
    unfolding toFixed_def Let_def by (simp only: if_False assms(3))
qed

lemma replicate_zeros: "replicate 3 c = [c, c, c]" "replicate 2 c = [c, c]"
  by (simp_all add: numeral_3_eq_3 numeral_2_eq_2)

lemma roundTo3_examples:
  "roundTo3 (100001 / 10000) = 10000" "roundTo3 (1000013 / 100000) = 10000"
  "roundTo3 (200001 / 10000) = 20000" "roundTo3 (2000009 / 100000) = 20000"
  by (simp_all add: roundTo3_def)

text \<open>
  C7, as stated: two coordinates whose longitudes and whose latitudes round to the same value
  at 3 decimal places get the same key. It fails where a component rounds to zero from both
  sides: \<open>toFixed\<close> keeps the sign of a negative number, so \<open>-1/4096\<close> gives
  \<open>-0.000\<close> and \<open>1/4096\<close> gives \<open>0.000\<close>. Both numbers are binary fractions, so
  they are the exact values of the JavaScript numbers.
\<close>

theorem coordKey_sign_counterexample:
  "roundTo3 (- 1 / 4096) = roundTo3 (1 / 4096) \<and> roundTo3 20 = roundTo3 20
   \<and> coordKey noExponent (- 1 / 4096, 20) = ''-0.000,20.000''
   \<and> coordKey noExponent (1 / 4096, 20) = ''0.000,20.000''
   \<and> coordKey noExponent (- 1 / 4096, 20) \<noteq> coordKey noExponent (1 / 4096, 20)"
  by (simp add: roundTo3_def coordKey_def toFixed_def fixedDigits_def Let_def digits.simps digit_chars_def
      replicate_zeros)

text \<open>
  C7, amended: two coordinates with components below \<open>10^21\<close> in magnitude whose
  longitudes and whose latitudes round to the same value at 3 decimal places and agree on
  being negative get the same key; in particular \<open>(10.0001, 20.0001)\<close> and
  \<open>(10.00013, 20.00009)\<close> do. The decimal fractions stand for the nearest JavaScript
  numbers, which differ from them by less than \<open>10^-14\<close> and round the same way.
\<close>

theorem coordKey_same_rounding:
  "(\<bar>fst c1\<bar> < 10 ^ 21 \<and> \<bar>snd c1\<bar> < 10 ^ 21 \<and> \<bar>fst c2\<bar> < 10 ^ 21 \<and> \<bar>snd c2\<bar> < 10 ^ 21
      \<and> roundTo3 (fst c1) = roundTo3 (fst c2) \<and> roundTo3 (snd c1) = roundTo3 (snd c2)
      \<and> (fst c1 < 0) = (fst c2 < 0) \<and> (snd c1 < 0) = (snd c2 < 0)
    \<longrightarrow> coordKey nts c1 = coordKey nts c2)
   \<and> coordKey nts (100001 / 10000, 200001 / 10000) = coordKey nts (1000013 / 100000, 2000009 / 100000)"
proof (intro conjI impI)
  assume h: "\<bar>fst c1\<bar> < 10 ^ 21 \<and> \<bar>snd c1\<bar> < 10 ^ 21 \<and> \<bar>fst c2\<bar> < 10 ^ 21 \<and> \<bar>snd c2\<bar> < 10 ^ 21
      \<and> roundTo3 (fst c1) = roundTo3 (fst c2) \<and> roundTo3 (snd c1) = roundTo3 (snd c2)
      \<and> (fst c1 < 0) = (fst c2 < 0) \<and> (snd c1 < 0) = (snd c2 < 0)"
  then have "toFixed nts 3 (fst c1) = toFixed nts 3 (fst c2)"
    by (intro toFixed_same) simp_all
  moreover from h have "toFixed nts 3 (snd c1) = toFixed nts 3 (snd c2)"
    by (intro toFixed_same) simp_all
  ultimately show "coordKey nts c1 = coordKey nts c2"
    by (simp add: coordKey_def)
next
  have "toFixed nts 3 (100001 / 10000) = toFixed nts 3 (1000013 / 100000)"
    by (rule toFixed_same) (simp_all add: roundTo3_examples)
  moreover have "toFixed nts 3 (200001 / 10000) = toFixed nts 3 (2000009 / 100000)"
    by (rule toFixed_same) (simp_all add: roundTo3_examples)
  ultimately show "coordKey nts (100001 / 10000, 200001 / 10000)
      = coordKey nts (1000013 / 100000, 2000009 / 100000)"
    by (simp add: coordKey_def)
qed

theorem coordKey_same_rounding_witness:
  "coordKey noExponent (- 1234 / 1000, 5) = coordKey noExponent (- 12341 / 10000, 50001 / 10000)
   \<and> coordKey noExponent (- 1234 / 1000, 5) = ''-1.234,5.000''"
proof -
  have "\<bar>fst (- 1234 / 1000 :: real, 5 :: real)\<bar> < 10 ^ 21
      \<and> \<bar>snd (- 1234 / 1000 :: real, 5 :: real)\<bar> < 10 ^ 21
      \<and> \<bar>fst (- 12341 / 10000 :: real, 50001 / 10000 :: real)\<bar> < 10 ^ 21
      \<and> \<bar>snd (- 12341 / 10000 :: real, 50001 / 10000 :: real)\<bar> < 10 ^ 21
      \<and> roundTo3 (fst (- 1234 / 1000 :: real, 5 :: real))
          = roundTo3 (fst (- 12341 / 10000 :: real, 50001 / 10000 :: real))
      \<and> roundTo3 (snd (- 1234 / 1000 :: real, 5 :: real))
          = roundTo3 (snd (- 12341 / 10000 :: real, 50001 / 10000 :: real))
      \<and> (fst (- 1234 / 1000 :: real, 5 :: real) < 0)
          = (fst (- 12341 / 10000 :: real, 50001 / 10000 :: real) < 0)
      \<and> (snd (- 1234 / 1000 :: real, 5 :: real) < 0)
          = (snd (- 12341 / 10000 :: real, 50001 / 10000 :: real) < 0)"
    by (simp add: roundTo3_def)
  with coordKey_same_rounding[of "(- 1234 / 1000, 5)" "(- 12341 / 10000, 50001 / 10000)" noExponent]
  have "coordKey noExponent (- 1234 / 1000, 5) = coordKey noExponent (- 12341 / 10000, 50001 / 10000)"
    by blast
  moreover have "coordKey noExponent (- 1234 / 1000, 5) = ''-1.234,5.000''"
    by (simp add: coordKey_def toFixed_def fixedDigits_def Let_def digits.simps digit_chars_def)
  ultimately show ?thesis by simp
qed

section \<open>The route planner: what is drawn\<close>

subsection \<open>What one hop pair draws\<close>

lemma animateLine_two: "animateLine [p, q] ident = [(ident, [p, q])]"
  by (simp add: animateLine_def)

lemma truthyPoint_Some:
  "truthyPoint h = Some p \<longleftrightarrow>
     (\<exists>la lo. lat h = Some la \<and> lon h = Some lo \<and> la \<noteq> 0 \<and> lo \<noteq> 0 \<and> p = (lo, la))"
  by (auto simp: truthyPoint_def truthy_def split: option.splits)

lemma directPair_truthy:
  "truthyPoint a = Some pa \<Longrightarrow> truthyPoint b = Some pb \<Longrightarrow>
     directPair i a b = [(''direct-'' @ digits i, [pa, pb])]"
  by (simp add: directPair_def animateLine_two)

lemma routePair_truthy:
  assumes "truthyPoint a = Some pa" and "truthyPoint b = Some pb"
  shows "\<exists>l ls. routePair hav g cm i a b = l # ls
           \<and> (l = (''fallback-'' @ digits i, [pa, pb]) \<or> (\<exists>c. l = (''to-'' @ digits i, [pa, c])))"
  using assms
  by (auto simp: routePair_def animateLine_two split: option.splits prod.splits)

lemma animateTrace_fallback:
  assumes "2 \<le> length hops" and "loadFeatures cablesFetched = [] \<or> loadFeatures landingsFetched = []"
  shows "animateTrace hav nts True cablesFetched landingsFetched hops =
           concat (map (\<lambda>i. directPair i (hops ! i) (hops ! (i + 1))) [0..<length hops - 1])"
  using assms by (auto simp: animateTrace_def Let_def)

lemma animateTrace_routed:
  assumes "2 \<le> length hops" and "loadFeatures cablesFetched \<noteq> []"
    and "loadFeatures landingsFetched \<noteq> []"
  shows "animateTrace hav nts True cablesFetched landingsFetched hops =
           concat (map (\<lambda>i. routePair hav
                     (fst (buildCableGraph hav nts (loadFeatures cablesFetched) (loadFeatures landingsFetched)))
                     (snd (buildCableGraph hav nts (loadFeatures cablesFetched) (loadFeatures landingsFetched)))
                     i (hops ! i) (hops ! (i + 1))) [0..<length hops - 1])"
  using assms by (auto simp: animateTrace_def Let_def)

lemma in_concat_map: "i \<in> set xs \<Longrightarrow> l \<in> set (f i) \<Longrightarrow> l \<in> set (concat (map f xs))"
  by auto

text \<open>
  Hop pairs whose four numbers are all non-zero: each is drawn, by one direct line in
  fallback mode and by a line from the first hop (to its landing, or to the second hop) in
  cable mode.
\<close>

lemma truthy_pair_is_routed:
  assumes "i + 1 < length hops"
    and "truthyPoint (hops ! i) = Some pa" and "truthyPoint (hops ! (i + 1)) = Some pb"
  shows "\<exists>l \<in> set (animateTrace hav nts True cablesFetched landingsFetched hops).
           l = (''direct-'' @ digits i, [pa, pb]) \<or> l = (''fallback-'' @ digits i, [pa, pb])
           \<or> (\<exists>c. l = (''to-'' @ digits i, [pa, c]))"
proof -
  from assms(1) have len: "2 \<le> length hops" and i: "i \<in> set [0..<length hops - 1]" by auto
  show ?thesis
  proof (cases "loadFeatures cablesFetched = [] \<or> loadFeatures landingsFetched = []")
    case True
    have "(''direct-'' @ digits i, [pa, pb]) \<in> set (directPair i (hops ! i) (hops ! (i + 1)))"
      by (simp only: directPair_truthy[OF assms(2,3)] list.set insertI1)
    with i have "(''direct-'' @ digits i, [pa, pb])
        \<in> set (animateTrace hav nts True cablesFetched landingsFetched hops)"
      unfolding animateTrace_fallback[OF len True] by (rule in_concat_map)
    then show ?thesis by blast
  next
    case False
    let ?g = "fst (buildCableGraph hav nts (loadFeatures cablesFetched) (loadFeatures landingsFetched))"
    let ?cm = "snd (buildCableGraph hav nts (loadFeatures cablesFetched) (loadFeatures landingsFetched))"
    from routePair_truthy[OF assms(2,3), of hav ?g ?cm i] obtain l ls where
      r: "routePair hav ?g ?cm i (hops ! i) (hops ! (i + 1)) = l # ls"
      and l: "l = (''fallback-'' @ digits i, [pa, pb]) \<or> (\<exists>c. l = (''to-'' @ digits i, [pa, c]))"
      by blast
    from r have "l \<in> set (routePair hav ?g ?cm i (hops ! i) (hops ! (i + 1)))" by simp
    moreover from False have "loadFeatures cablesFetched \<noteq> []" "loadFeatures landingsFetched \<noteq> []"
      by simp_all
    note animateTrace_routed[OF len this, of hav nts]
    ultimately have "l \<in> set (animateTrace hav nts True cablesFetched landingsFetched hops)"
      using i by (simp only: in_concat_map)
    with l show ?thesis by blast
  qed
qed

lemma fallback_mode_direct_lines:
  assumes "2 \<le> length hops" and "loadFeatures cablesFetched = [] \<or> loadFeatures landingsFetched = []"
    and "\<forall>h \<in> set hops. truthyPoint h \<noteq> None"
  shows "animateTrace hav nts True cablesFetched landingsFetched hops =
           map (\<lambda>i. (''direct-'' @ digits i, [the (truthyPoint (hops ! i)), the (truthyPoint (hops ! (i + 1)))]))
               [0..<length hops - 1]"
proof -
  have "directPair i (hops ! i) (hops ! (i + 1)) =
      [(''direct-'' @ digits i, [the (truthyPoint (hops ! i)), the (truthyPoint (hops ! (i + 1)))])]"
    if "i \<in> set [0..<length hops - 1]" for i
  proof -
    from that have "hops ! i \<in> set hops" "hops ! (i + 1) \<in> set hops" by auto
    with assms(3) obtain pa pb where "truthyPoint (hops ! i) = Some pa"
      "truthyPoint (hops ! (i + 1)) = Some pb" by blast
    then show ?thesis by (simp add: directPair_truthy)
  qed
  then have "map (\<lambda>i. directPair i (hops ! i) (hops ! (i + 1))) [0..<length hops - 1] =
      map (\<lambda>i. [(''direct-'' @ digits i, [the (truthyPoint (hops ! i)), the (truthyPoint (hops ! (i + 1)))])])
        [0..<length hops - 1]"
    by (intro map_cong refl)
  then show ?thesis
    unfolding animateTrace_fallback[OF assms(1,2)]
    by (simp only: concat_map_singleton)
qed

subsection \<open>Hops on the equator and on the prime meridian\<close>

lemma hopAt_hasCoordinates: "hasCoordinates (hopAt lo la)"
  by (simp add: hasCoordinates_def hopAt_def)

lemma hopAt_truthyPoint: "truthyPoint (hopAt lo la) = (if la \<noteq> 0 \<and> lo \<noteq> 0 then Some (lo, la) else None)"
  by (simp add: truthyPoint_def truthy_def hopAt_def)

text \<open>
  C1. Every consecutive hop pair in which both hops have known coordinates gets at least one
  line, whatever the datasets, the landing resolution and the path finder give. The route
  loops do not test whether the coordinates are known but whether the four numbers are
  truthy, so a hop on the equator or on the prime meridian counts as a hop without
  coordinates: for the hops \<open>(lon 10, lat 0)\<close> and \<open>(lon 10, lat 5)\<close>, which the marker
  loop draws, no line is drawn at all, with any datasets.
\<close>

theorem equator_hop_pair_unrouted:
  "hasCoordinates (hopAt 10 0) \<and> hasCoordinates (hopAt 10 5)
   \<and> animateTrace hav nts True cablesFetched landingsFetched [hopAt 10 0, hopAt 10 5] = []"
  by (simp add: hopAt_hasCoordinates animateTrace_def Let_def directPair_def routePair_def
      hopAt_truthyPoint)

theorem equator_hop_pair_unrouted_witness:
  "hasCoordinates (hopAt 10 0) \<and> hasCoordinates (hopAt 10 5)
   \<and> animateTrace gridDistance noExponent True (Some [cableAB])
        (Some [landingA, landingB, landingC]) [hopAt 10 0, hopAt 10 5] = []"
  using equator_hop_pair_unrouted[of gridDistance noExponent "Some [cableAB]"
      "Some [landingA, landingB, landingC]"]
  by simp

text \<open>
  C9. With an empty or failed cable dataset (or landing dataset) every consecutive hop pair
  with known coordinates gets exactly one direct line. The fallback loop has the same
  truthiness test: the pair \<open>(lon 0, lat 51)\<close>, \<open>(lon 2, lat 49)\<close> gets no line.
\<close>

theorem fallback_skips_meridian_hop:
  "hasCoordinates (hopAt 0 51) \<and> hasCoordinates (hopAt 2 49)
   \<and> animateTrace hav nts True (Some []) landingsFetched [hopAt 0 51, hopAt 2 49] = []
   \<and> animateTrace hav nts True None landingsFetched [hopAt 0 51, hopAt 2 49] = []
   \<and> animateTrace hav nts True cablesFetched None [hopAt 0 51, hopAt 2 49] = []"
  by (simp add: hopAt_hasCoordinates animateTrace_def Let_def directPair_def loadFeatures_def
      hopAt_truthyPoint)

theorem fallback_skips_meridian_hop_witness:
  "animateTrace gridDistance noExponent True (Some []) (Some [landingA, landingB, landingC])
     [hopAt 0 51, hopAt 2 49] = []
   \<and> animateTrace gridDistance noExponent True None None [hopAt 0 51, hopAt 2 49] = []"
  using fallback_skips_meridian_hop[of gridDistance noExponent "Some [landingA, landingB, landingC]" None]
    fallback_skips_meridian_hop[of gridDistance noExponent None None]
  by simp

subsection \<open>Two landings joined by one cable\<close>

lemma coordKey_nonempty: "coordKey nts c \<noteq> []"
  by (simp add: coordKey_def)

lemma digits_0: "digits 0 = ''0''"
  by (simp add: digits.simps digit_chars_def)

lemma resolveCable_length:
  "resolveCable hav nts ls c = Some se \<Longrightarrow> 2 \<le> length (flatten (cable_geometry c))"
  by (auto simp: resolveCable_def Let_def split: if_splits)

lemma buildCoordMap_two:
  assumes "coordKey nts (landing_coordinates l1) \<noteq> coordKey nts (landing_coordinates l2)"
  shows "buildCoordMap nts [l1, l2] =
     [(coordKey nts (landing_coordinates l1), landing_coordinates l1),
      (coordKey nts (landing_coordinates l2), landing_coordinates l2)]"
  using assms by (simp add: buildCoordMap_def)

lemma closest_two:
  assumes "k1 \<noteq> k2" and "hav p c1 = Fin d1" and "hav p c2 = Fin d2"
  shows "fst (getClosestCoordKey hav [(k1, c1), (k2, c2)] p) = Some (if d2 < d1 then k2 else k1)"
  using assms by (simp add: getClosestCoordKey_def nearer_def Let_def)

lemma dfs_one_edge:
  assumes "kA \<noteq> kB" and "map to (edgesOf g kA) = [kB]"
  shows "findCablePathDFS g kA kB {} = Some [kA, kB]"
proof -
  from assms(2) obtain e where e: "edgesOf g kA = [e]" and te: "to e = kB" by auto
  have "findCablePathDFS g kB kB {kA} = Some [kB]"
    by (simp add: findCablePathDFS.simps)
  with assms(1) e te show ?thesis
    by (subst findCablePathDFS.simps) auto
qed

lemma seaLegs_one_edge:
  assumes "kA \<noteq> kB" and "edgesOf g kA = [e]" and "to e = kB" and "2 \<le> length (geometry e)"
  shows "seaLegs g 0 kA kB cA cB = [(''cable-0-0'', geometry e)]"
proof -
  from assms(2,3) have "map to (edgesOf g kA) = [kB]" by simp
  from dfs_one_edge[OF assms(1) this] assms(2,3,4) show ?thesis
    by (simp add: seaLegs_def cableLeg_def animateLine_def digits_0)
qed

lemma routePair_two_landings:
  assumes ne: "kA \<noteq> kB" and nonempty: "kA \<noteq> []" "kB \<noteq> []"
    and cm: "cm = [(kA, cA), (kB, cB)] \<or> cm = [(kB, cB), (kA, cA)]"
    and hops: "truthyPoint a = Some cA" "truthyPoint b = Some cB"
    and hav: "hav cA cA = Fin 0" "hav cB cB = Fin 0" "hav cA cB = Fin d1" "hav cB cA = Fin d2"
             "0 < d1" "0 < d2"
    and edge: "edgesOf g kA = [e]" "to e = kB" "2 \<le> length (geometry e)"
  shows "routePair hav g cm 0 a b =
           [(''to-0'', [cA, cA]), (''cable-0-0'', geometry e), (''from-0'', [cB, cB])]"
proof -
  have kBA: "kB \<noteq> kA" using ne by simp
  have A: "fst (getClosestCoordKey hav cm cA) = Some kA"
    using cm
  proof
    assume "cm = [(kA, cA), (kB, cB)]"
    with closest_two[where hav=hav and p=cA and ?c1.0=cA and ?c2.0=cB, OF ne hav(1) hav(3)] hav(5) show ?thesis by simp
  next
    assume "cm = [(kB, cB), (kA, cA)]"
    with closest_two[where hav=hav and p=cA and ?c1.0=cB and ?c2.0=cA, OF kBA hav(3) hav(1)] hav(5) show ?thesis by simp
  qed
  have B: "fst (getClosestCoordKey hav cm cB) = Some kB"
    using cm
  proof
    assume "cm = [(kA, cA), (kB, cB)]"
    with closest_two[where hav=hav and p=cB and ?c1.0=cA and ?c2.0=cB, OF ne hav(4) hav(2)] hav(6) show ?thesis by simp
  next
    assume "cm = [(kB, cB), (kA, cA)]"
    with closest_two[where hav=hav and p=cB and ?c1.0=cB and ?c2.0=cA, OF kBA hav(2) hav(4)] hav(6) show ?thesis by simp
  qed
  have lA: "landingOf cm (Some kA) = Some (kA, cA)"
    using cm ne nonempty by (auto simp: landingOf_def)
  have lB: "landingOf cm (Some kB) = Some (kB, cB)"
    using cm ne nonempty by (auto simp: landingOf_def)
  show ?thesis
    by (simp add: routePair_def hops A B lA lB animateLine_two digits_0
        seaLegs_one_edge[OF ne edge])
qed

subsection \<open>Two landings with one key\<close>

lemma near_ends:
  "findClosestLanding gridDistance noExponent [nearA, nearB] (100001 / 10000, 200001 / 10000)
     = Some \<lparr>lkey = ''10.000,20.000'', lcoord = landing_coordinates nearA, lname = landing_name nearA\<rparr>"
  "findClosestLanding gridDistance noExponent [nearA, nearB] (100003 / 10000, 200003 / 10000)
     = Some \<lparr>lkey = ''10.000,20.000'', lcoord = landing_coordinates nearB, lname = landing_name nearB\<rparr>"
  by (simp_all add: findClosestLanding_def closer_def nearA_def nearB_def key_NA key_NB
      gridDistance_def PROXIMITY_THRESHOLD_def Let_def)

lemma near_graph:
  "buildCableGraph gridDistance noExponent [cableNear] [nearA, nearB]
     = ([], [(''10.000,20.000'', (100003 / 10000, 200003 / 10000))])"
  by (simp add: buildCableGraph_def buildGraph_def buildCoordMap_def addCable_def resolveCable_def
      cableNear_def flatten_def near_ends)
     (simp add: nearA_def nearB_def key_NA key_NB)

text \<open>
  C8, as stated: two landings joined by one cable whose ends resolve to them, and two hops
  at the landings' coordinates, give three lines, the middle one the cable's geometry, and
  the path finder returns the 2-element path between the two landing keys. Landings closer
  than the rounding of the key share one key: the cable's ends resolve to the two landings,
  but \<open>startLanding.key !== endLanding.key\<close> fails and the cable is dropped, the
  coordinate map keeps the second landing only, the middle line is the direct line
  \<open>fallback-sea-0\<close> and the path finder returns the singleton path.
\<close>

theorem near_landings_counterexample:
  "findClosestLanding gridDistance noExponent [nearA, nearB] (hd (flatten (cable_geometry cableNear)))
     = Some \<lparr>lkey = coordKey noExponent (landing_coordinates nearA),
              lcoord = landing_coordinates nearA, lname = landing_name nearA\<rparr>
   \<and> findClosestLanding gridDistance noExponent [nearA, nearB] (last (flatten (cable_geometry cableNear)))
     = Some \<lparr>lkey = coordKey noExponent (landing_coordinates nearB),
              lcoord = landing_coordinates nearB, lname = landing_name nearB\<rparr>
   \<and> truthyPoint (hopAt (100001 / 10000) (200001 / 10000)) = Some (landing_coordinates nearA)
   \<and> truthyPoint (hopAt (100003 / 10000) (200003 / 10000)) = Some (landing_coordinates nearB)
   \<and> animateTrace gridDistance noExponent True (Some [cableNear]) (Some [nearA, nearB])
        [hopAt (100001 / 10000) (200001 / 10000), hopAt (100003 / 10000) (200003 / 10000)]
      = [(''to-0'', [(100001 / 10000, 200001 / 10000), (100003 / 10000, 200003 / 10000)]),
         (''fallback-sea-0'', [(100003 / 10000, 200003 / 10000), (100003 / 10000, 200003 / 10000)]),
         (''from-0'', [(100003 / 10000, 200003 / 10000), (100003 / 10000, 200003 / 10000)])]
   \<and> findCablePathDFS (fst (buildCableGraph gridDistance noExponent [cableNear] [nearA, nearB]))
        (coordKey noExponent (landing_coordinates nearA))
        (coordKey noExponent (landing_coordinates nearB)) {} = Some [''10.000,20.000'']"
proof -
  have k: "coordKey noExponent (landing_coordinates nearA) = ''10.000,20.000''"
    "coordKey noExponent (landing_coordinates nearB) = ''10.000,20.000''"
    by (simp_all add: nearA_def nearB_def key_NA key_NB)
  have c: "hd (flatten (cable_geometry cableNear)) = (100001 / 10000, 200001 / 10000)"
    "last (flatten (cable_geometry cableNear)) = (100003 / 10000, 200003 / 10000)"
    by (simp_all add: cableNear_def flatten_def)
  have t: "truthyPoint (hopAt (100001 / 10000) (200001 / 10000)) = Some (landing_coordinates nearA)"
    "truthyPoint (hopAt (100003 / 10000) (200003 / 10000)) = Some (landing_coordinates nearB)"
    by (simp_all add: hopAt_truthyPoint nearA_def nearB_def)
  have a: "animateTrace gridDistance noExponent True (Some [cableNear]) (Some [nearA, nearB])
        [hopAt (100001 / 10000) (200001 / 10000), hopAt (100003 / 10000) (200003 / 10000)]
      = [(''to-0'', [(100001 / 10000, 200001 / 10000), (100003 / 10000, 200003 / 10000)]),
         (''fallback-sea-0'', [(100003 / 10000, 200003 / 10000), (100003 / 10000, 200003 / 10000)]),
         (''from-0'', [(100003 / 10000, 200003 / 10000), (100003 / 10000, 200003 / 10000)])]"
    by (simp add: animateTrace_def near_graph loadFeatures_def routePair_def hopAt_truthyPoint
        getClosestCoordKey_def nearer_def landingOf_def gridDistance_def seaLegs_def
        findCablePathDFS.simps animateLine_def digits_0 Let_def)
  have d: "findCablePathDFS (fst (buildCableGraph gridDistance noExponent [cableNear] [nearA, nearB]))
        ''10.000,20.000'' ''10.000,20.000'' {} = Some [''10.000,20.000'']"
    by (simp add: findCablePathDFS.simps)
  show ?thesis
    unfolding k c using near_ends t a d by (simp only: simp_thms)
qed

text \<open>
  C8, amended: two landings, one cable whose ends resolve to them with different keys (in
  either direction), two hops at the landings' coordinates with no zero component, and a
  distance that is zero from a landing to itself and positive between the two landings, as
  the haversine distance is. The planner draws exactly three lines: hop to landing, the
  geometry stored on the graph edge from the first landing to the second (the cable's
  coordinates, reversed when the cable is stored from the second landing to the first),
  and landing to hop; and the path finder returns the 2-element path.
\<close>

theorem two_landings_three_lines:
  assumes landings: "landings = [lA, lB] \<or> landings = [lB, lA]"
    and cA: "landing_coordinates lA = cA" and cB: "landing_coordinates lB = cB"
    and res: "resolveCable hav nts landings c = Some (s, e)"
    and ends: "(s, e) = (coordKey nts cA, coordKey nts cB) \<or> (s, e) = (coordKey nts cB, coordKey nts cA)"
    and hops: "truthyPoint a = Some cA" "truthyPoint b = Some cB"
    and hav: "hav cA cA = Fin 0" "hav cB cB = Fin 0" "hav cA cB = Fin d1" "hav cB cA = Fin d2"
             "0 < d1" "0 < d2"
  shows "animateTrace hav nts True (Some [c]) (Some landings) [a, b] =
           [(''to-0'', [cA, cA]),
            (''cable-0-0'', if s = coordKey nts cA then flatten (cable_geometry c)
                            else rev (flatten (cable_geometry c))),
            (''from-0'', [cB, cB])]
         \<and> findCablePathDFS (fst (buildCableGraph hav nts [c] landings))
              (coordKey nts cA) (coordKey nts cB) {} = Some [coordKey nts cA, coordKey nts cB]"
proof -
  let ?kA = "coordKey nts cA" and ?kB = "coordKey nts cB"
  let ?g = "buildGraph hav nts [c] landings" and ?cm = "buildCoordMap nts landings"
  from resolveCable_distinct[OF res] ends have ne: "?kA \<noteq> ?kB" by auto
  then have ne': "?kB \<noteq> ?kA" by simp
  have cm: "?cm = [(?kA, cA), (?kB, cB)] \<or> ?cm = [(?kB, cB), (?kA, cA)]"
    using landings
  proof
    assume "landings = [lA, lB]"
    with buildCoordMap_two[of nts lA lB] ne cA cB show ?thesis by simp
  next
    assume "landings = [lB, lA]"
    with buildCoordMap_two[of nts lB lA] ne' cA cB show ?thesis by simp
  qed
  define ed where "ed = \<lparr>to = ?kB, cableName = cable_name c,
      geometry = (if s = ?kA then flatten (cable_geometry c) else rev (flatten (cable_geometry c)))\<rparr>"
  have edge: "edgesOf ?g ?kA = [ed]"
    using ends ne ne' by (auto simp: buildGraph_one_cable[OF res] edgesOf_def ed_def)
  have to: "to ed = ?kB" by (simp add: ed_def)
  have len: "2 \<le> length (geometry ed)"
    using resolveCable_length[OF res] by (simp add: ed_def)
  have geo: "geometry ed = (if s = ?kA then flatten (cable_geometry c)
                            else rev (flatten (cable_geometry c)))"
    by (simp add: ed_def)
  have "routePair hav ?g ?cm 0 a b =
      [(''to-0'', [cA, cA]), (''cable-0-0'', geometry ed), (''from-0'', [cB, cB])]"
    by (rule routePair_two_landings[OF ne coordKey_nonempty coordKey_nonempty cm hops hav edge to len])
  moreover have "landings \<noteq> []" using landings by auto
  ultimately have "animateTrace hav nts True (Some [c]) (Some landings) [a, b] =
      [(''to-0'', [cA, cA]), (''cable-0-0'', geometry ed), (''from-0'', [cB, cB])]"
    by (simp add: animateTrace_def loadFeatures_def buildCableGraph_def Let_def)
  moreover have "findCablePathDFS ?g ?kA ?kB {} = Some [?kA, ?kB]"
    by (rule dfs_one_edge[OF ne]) (simp add: edge to)
  ultimately show ?thesis by (simp add: geo buildCableGraph_def)
qed

theorem two_landings_three_lines_witness:
  "animateTrace gridDistance noExponent True (Some [cableAB]) (Some [landingA, landingB])
     [hopAt 10 20, hopAt 55 20] =
     [(''to-0'', [(10, 20), (10, 20)]),
      (''cable-0-0'', [(10, 20), (30, 25), (55, 20)]),
      (''from-0'', [(55, 20), (55, 20)])]"
proof -
  have r: "resolveCable gridDistance noExponent [landingA, landingB] cableAB
      = Some (''10.000,20.000'', ''55.000,20.000'')"
    by (simp add: resolveCable_def findClosestLanding_def closer_def cableAB_def landingA_def
      landingB_def flatten_def key_A key_B gridDistance_def PROXIMITY_THRESHOLD_def Let_def)
  have "animateTrace gridDistance noExponent True (Some [cableAB]) (Some [landingA, landingB])
     [hopAt 10 20, hopAt 55 20] =
     [(''to-0'', [(10, 20), (10, 20)]),
      (''cable-0-0'', if ''10.000,20.000'' = coordKey noExponent (10, 20)
          then flatten (cable_geometry cableAB) else rev (flatten (cable_geometry cableAB))),
      (''from-0'', [(55, 20), (55, 20)])]
    \<and> findCablePathDFS (fst (buildCableGraph gridDistance noExponent [cableAB] [landingA, landingB]))
              (coordKey noExponent (10, 20)) (coordKey noExponent (55, 20)) {}
        = Some [coordKey noExponent (10, 20), coordKey noExponent (55, 20)]"
  proof (rule two_landings_three_lines[where lA = landingA and lB = landingB and ?d1.0 = 4995
        and ?d2.0 = 4995])
    show "[landingA, landingB] = [landingA, landingB] \<or> [landingA, landingB] = [landingB, landingA]"
      by simp
    show "landing_coordinates landingA = (10, 20)" by (simp add: landingA_def)
    show "landing_coordinates landingB = (55, 20)" by (simp add: landingB_def)
    show "resolveCable gridDistance noExponent [landingA, landingB] cableAB
      = Some (''10.000,20.000'', ''55.000,20.000'')" by (rule r)
    show "(''10.000,20.000'', ''55.000,20.000'') = (coordKey noExponent (10, 20), coordKey noExponent (55, 20))
      \<or> (''10.000,20.000'', ''55.000,20.000'') = (coordKey noExponent (55, 20), coordKey noExponent (10, 20))"
      by (simp add: key_A key_B)
    show "truthyPoint (hopAt 10 20) = Some (10, 20)" by (simp add: hopAt_truthyPoint)
    show "truthyPoint (hopAt 55 20) = Some (55, 20)" by (simp add: hopAt_truthyPoint)
    show "gridDistance (10, 20) (10, 20) = Fin 0" by (simp add: gridDistance_def)
    show "gridDistance (55, 20) (55, 20) = Fin 0" by (simp add: gridDistance_def)
    show "gridDistance (10, 20) (55, 20) = Fin 4995" by (simp add: gridDistance_def)
    show "gridDistance (55, 20) (10, 20) = Fin 4995" by (simp add: gridDistance_def)
    show "(0::real) < 4995" by simp
    show "(0::real) < 4995" by simp
  qed
  then show ?thesis by (simp add: key_A cableAB_def flatten_def)
qed

subsection \<open>The two landings on the equator\<close>

lemma key_EA: "coordKey noExponent (10, 0) = ''10.000,0.000''"
  by (simp add: coordKey_def toFixed_def fixedDigits_def Let_def digits.simps digit_chars_def
      replicate_zeros)

lemma key_EB: "coordKey noExponent (55, 0) = ''55.000,0.000''"
  by (simp add: coordKey_def toFixed_def fixedDigits_def Let_def digits.simps digit_chars_def
      replicate_zeros)

lemma equator_resolve:
  "resolveCable gridDistance noExponent [equatorA, equatorB] cableEquator
     = Some (''10.000,0.000'', ''55.000,0.000'')"
  by (simp add: resolveCable_def findClosestLanding_def closer_def cableEquator_def equatorA_def
      equatorB_def flatten_def key_EA key_EB gridDistance_def PROXIMITY_THRESHOLD_def Let_def)

lemma equator_graph:
  "fst (buildCableGraph gridDistance noExponent [cableEquator] [equatorA, equatorB]) =
     [(''10.000,0.000'', [\<lparr>to = ''55.000,0.000'', cableName = ''EQ'', geometry = [(10, 0), (55, 0)]\<rparr>]),
      (''55.000,0.000'', [\<lparr>to = ''10.000,0.000'', cableName = ''EQ'', geometry = [(55, 0), (10, 0)]\<rparr>])]"
  by (simp only: buildCableGraph_def fst_conv buildGraph_one_cable[OF equator_resolve])
     (simp add: cableEquator_def flatten_def)

text \<open>
  The same scenario with the two landings on the equator: the cable's ends resolve to the
  landings and the path finder returns the two keys, but the planner draws nothing, because
  the latitude \<open>0\<close> of both hops is not truthy.
\<close>

lemma equator_landings_no_lines:
  "resolveCable gridDistance noExponent [equatorA, equatorB] cableEquator
     = Some (coordKey noExponent (landing_coordinates equatorA),
             coordKey noExponent (landing_coordinates equatorB))
   \<and> lon (hopAt 10 0) = Some (fst (landing_coordinates equatorA))
   \<and> lat (hopAt 10 0) = Some (snd (landing_coordinates equatorA))
   \<and> lon (hopAt 55 0) = Some (fst (landing_coordinates equatorB))
   \<and> lat (hopAt 55 0) = Some (snd (landing_coordinates equatorB))
   \<and> animateTrace gridDistance noExponent True (Some [cableEquator]) (Some [equatorA, equatorB])
        [hopAt 10 0, hopAt 55 0] = []
   \<and> findCablePathDFS (fst (buildCableGraph gridDistance noExponent [cableEquator]
                               [equatorA, equatorB]))
        ''10.000,0.000'' ''55.000,0.000'' {} = Some [''10.000,0.000'', ''55.000,0.000'']"
proof -
  have "findCablePathDFS (fst (buildCableGraph gridDistance noExponent [cableEquator]
                               [equatorA, equatorB]))
        ''10.000,0.000'' ''55.000,0.000'' {} = Some [''10.000,0.000'', ''55.000,0.000'']"
    by (rule dfs_one_edge) (simp_all add: equator_graph edgesOf_def)
  moreover have "animateTrace gridDistance noExponent True (Some [cableEquator])
      (Some [equatorA, equatorB]) [hopAt 10 0, hopAt 55 0] = []"
    by (simp add: animateTrace_def Let_def routePair_def hopAt_truthyPoint loadFeatures_def)
  moreover have "coordKey noExponent (landing_coordinates equatorA) = ''10.000,0.000''"
    "coordKey noExponent (landing_coordinates equatorB) = ''55.000,0.000''"
    by (simp_all add: equatorA_def equatorB_def key_EA key_EB)
  moreover have "lon (hopAt 10 0) = Some (fst (landing_coordinates equatorA))"
    "lat (hopAt 10 0) = Some (snd (landing_coordinates equatorA))"
    "lon (hopAt 55 0) = Some (fst (landing_coordinates equatorB))"
    "lat (hopAt 55 0) = Some (snd (landing_coordinates equatorB))"
    by (simp_all add: equatorA_def equatorB_def hopAt_def)
  ultimately show ?thesis
    using equator_resolve by (simp only: simp_thms)
qed

section \<open>Overlapping animation runs\<close>

subsection \<open>One step on a map whose layers draw from their own sources\<close>

lemma set_delete: "set (AList.delete k al) = {p \<in> set al. fst p \<noteq> k}"
  by (induction al) auto

lemma set_update_subset: "set (AList.update k v al) \<subseteq> insert (k, v) (set al)"
  by (induction al) auto

lemma map_of_snoc: "map_of (al @ [(k, v)]) = (if map_of al k = None then (map_of al)(k \<mapsto> v) else map_of al)"
  by (auto simp: map_add_def fun_eq_iff split: option.splits)

lemma execStep_AddLine:
  assumes inv: "ownSources ids m" and ident: "ident \<in> ids"
  shows "\<exists>m'. execStep (AddLine ident coords) m = (None, m')
           \<and> map_of (sources m') = (map_of (sources m))(ident \<mapsto> coords)
           \<and> map_of (layers m') = (map_of (layers m))(ident \<mapsto> \<lparr>source = ident, dasharray = (2, 4)\<rparr>)
           \<and> ownSources ids m'"
proof -
  define m1 where "m1 = (if getLayer ident m \<noteq> None then removeLayer ident m else m)"
  define m2 where "m2 = (if getSource ident m1 \<noteq> None then removeSource ident m1 else m1)"
  have L1: "map_of (layers m1) = (map_of (layers m))(ident := None)"
    by (auto simp: m1_def removeLayer_def getLayer_def delete_conv' fun_eq_iff)
  have set1: "set (layers m1) \<subseteq> set (layers m)"
    by (auto simp: m1_def removeLayer_def set_delete)
  have S1: "sources m1 = sources m"
    by (simp add: m1_def removeLayer_def)
  have nokey: "\<forall>l \<in> set (layers m1). fst l \<noteq> ident"
  proof
    fix l assume "l \<in> set (layers m1)"
    then have "map_of (layers m1) (fst l) \<noteq> None"
      by (metis image_eqI map_of_eq_None_iff)
    with L1 show "fst l \<noteq> ident" by auto
  qed
  have unused: "\<not> sourceInUse ident m1"
  proof
    assume "sourceInUse ident m1"
    then obtain l where l: "l \<in> set (layers m1)" and s: "source (snd l) = ident"
      by (auto simp: sourceInUse_def)
    with set1 inv ident have "fst l = ident" by (auto simp: ownSources_def)
    with nokey l show False by auto
  qed
  have S2: "map_of (sources m2) = (map_of (sources m))(ident := None)"
    using unused
    by (auto simp: m2_def removeSource_def getSource_def delete_conv' S1 fun_eq_iff)
  have L2: "layers m2 = layers m1"
    by (simp add: m2_def removeSource_def)
  define m3 where "m3 = m2\<lparr>sources := sources m2 @ [(ident, coords)]\<rparr>"
  have add: "addSource ident coords m2 = Inr m3"
    using S2 by (simp add: addSource_def getSource_def m3_def)
  have S3: "map_of (sources m3) = (map_of (sources m))(ident \<mapsto> coords)"
    using S2 by (auto simp: m3_def map_of_snoc fun_eq_iff simp del: map_of_append)
  have L3: "layers m3 = layers m1"
    by (simp add: m3_def L2)
  define m4 where "m4 = addLayer ident m3"
  have m4: "layers m4 = layers m1 @ [(ident, \<lparr>source = ident, dasharray = (2, 4)\<rparr>)]"
    "sources m4 = sources m3"
    using S3 L1 by (simp_all add: m4_def addLayer_def getLayer_def getSource_def L3)
  have L4: "map_of (layers m4) = (map_of (layers m))(ident \<mapsto> \<lparr>source = ident, dasharray = (2, 4)\<rparr>)"
    using L1 by (auto simp: m4 map_of_snoc fun_eq_iff simp del: map_of_append)
  have inv4: "ownSources ids m4"
    using inv set1 by (auto simp: ownSources_def m4)
  have "execStep (AddLine ident coords) m =
      (case addSource ident coords m2 of Inl err \<Rightarrow> (Some err, m2)
                                        | Inr m3 \<Rightarrow> (None, addLayer ident m3))"
    by (simp only: execStep.simps Let_def m1_def m2_def)
  then have "execStep (AddLine ident coords) m = (None, m4)"
    by (simp add: add m4_def)
  with S3 L4 inv4 m4(2) show ?thesis by simp
qed

lemma execStep_Frame:
  assumes inv: "ownSources ids m"
  shows "\<exists>m'. execStep (Frame ident offset) m = (None, m')
           \<and> sources m' = sources m
           \<and> (\<forall>x. x \<noteq> ident \<longrightarrow> map_of (layers m') x = map_of (layers m) x)
           \<and> (\<forall>x. map_option source (map_of (layers m') x) = map_option source (map_of (layers m) x))
           \<and> ownSources ids m'"
proof (cases "getLayer ident m")
  case None
  with inv show ?thesis by (simp add: setPaintProperty_def)
next
  case (Some l)
  define m' where "m' = m\<lparr>layers := AList.update ident (l\<lparr>dasharray := (2, 4 + offset mod 20)\<rparr>) (layers m)\<rparr>"
  from Some have ex: "execStep (Frame ident offset) m = (None, m')"
    by (simp add: setPaintProperty_def m'_def)
  from Some have mem: "(ident, l) \<in> set (layers m)"
    by (simp add: getLayer_def map_of_SomeD)
  have L: "map_of (layers m') = (map_of (layers m))(ident \<mapsto> l\<lparr>dasharray := (2, 4 + offset mod 20)\<rparr>)"
    by (simp add: m'_def update_conv')
  have "ownSources ids m'"
    unfolding ownSources_def
  proof
    fix p assume "p \<in> set (layers m')"
    then have "p = (ident, l\<lparr>dasharray := (2, 4 + offset mod 20)\<rparr>) \<or> p \<in> set (layers m)"
      using set_update_subset[of ident _ "layers m"] by (auto simp: m'_def)
    then show "source (snd p) \<in> ids \<longrightarrow> fst p = source (snd p)"
      using inv mem by (auto simp: ownSources_def)
  qed
  moreover have "sources m' = sources m" by (simp add: m'_def)
  moreover have "\<forall>x. x \<noteq> ident \<longrightarrow> map_of (layers m') x = map_of (layers m) x"
    by (simp add: L)
  moreover have "\<forall>x. map_option source (map_of (layers m') x) = map_option source (map_of (layers m) x)"
    using Some by (simp add: L getLayer_def)
  ultimately show ?thesis using ex by simp
qed

subsection \<open>A run of steps on such a map\<close>

lemma run_fold:
  assumes "ownSources ids (surfaceNow st)" and "thrown st = {}"
    and "\<forall>t \<in> set ts. stepId (snd t) \<in> ids"
  shows "thrown (fold execTagged ts st) = {}
    \<and> executed (fold execTagged ts st) = executed st @ ts
    \<and> ownSources ids (surfaceNow (fold execTagged ts st))
    \<and> map_of (sources (surfaceNow (fold execTagged ts st)))
        = map_of (sources (surfaceNow st)) ++ map_of (rev (drawn (map snd ts)))
    \<and> (\<forall>x. x \<notin> stepId ` snd ` set ts \<longrightarrow>
          map_of (layers (surfaceNow (fold execTagged ts st))) x = map_of (layers (surfaceNow st)) x)
    \<and> (\<forall>x. map_option source (map_of (layers (surfaceNow (fold execTagged ts st))) x)
          = (if x \<in> fst ` set (drawn (map snd ts)) then Some x
             else map_option source (map_of (layers (surfaceNow st)) x)))"
  using assms
proof (induction ts arbitrary: st)
  case Nil
  then show ?case by simp
next
  case (Cons t ts)
  obtain r s where t: "t = (r, s)" by (cases t)
  let ?m = "surfaceNow st"
  from Cons.prems(3) t have sid: "stepId s \<in> ids" by simp
  have "\<exists>m'. execStep s ?m = (None, m') \<and> ownSources ids m'
      \<and> map_of (sources m') = map_of (sources ?m) ++ map_of (rev (drawn [s]))
      \<and> (\<forall>x. x \<noteq> stepId s \<longrightarrow> map_of (layers m') x = map_of (layers ?m) x)
      \<and> (\<forall>x. map_option source (map_of (layers m') x)
            = (if x \<in> fst ` set (drawn [s]) then Some x
               else map_option source (map_of (layers ?m) x)))"
  proof (cases s)
    case (AddLine ident coords)
    with sid have "ident \<in> ids" by simp
    from execStep_AddLine[OF Cons.prems(1) this, of coords] AddLine
    show ?thesis by auto
  next
    case (Frame ident offset)
    from execStep_Frame[OF Cons.prems(1), of ident offset] Frame
    show ?thesis by auto
  qed
  then obtain m' where ex: "execStep s ?m = (None, m')" and inv': "ownSources ids m'"
    and S': "map_of (sources m') = map_of (sources ?m) ++ map_of (rev (drawn [s]))"
    and L': "\<forall>x. x \<noteq> stepId s \<longrightarrow> map_of (layers m') x = map_of (layers ?m) x"
    and Ls': "\<forall>x. map_option source (map_of (layers m') x)
            = (if x \<in> fst ` set (drawn [s]) then Some x
               else map_option source (map_of (layers ?m) x))"
    by blast
  define st' where "st' = st\<lparr>surfaceNow := m', executed := executed st @ [t]\<rparr>"
  have step: "execTagged t st = st'"
    using Cons.prems(2) ex by (simp add: execTagged_def t st'_def)
  have p1: "ownSources ids (surfaceNow st')" using inv' by (simp add: st'_def)
  have p2: "thrown st' = {}" using Cons.prems(2) by (simp add: st'_def)
  have p3: "\<forall>t \<in> set ts. stepId (snd t) \<in> ids" using Cons.prems(3) by simp
  note ih = Cons.IH[OF p1 p2 p3]
  have m': "surfaceNow st' = m'" "executed st' = executed st @ [t]" by (simp_all add: st'_def)
  have dr: "drawn (snd t # map snd ts) = drawn [s] @ drawn (map snd ts)"
    by (cases s) (simp_all add: t)
  have "map_of (sources (surfaceNow (fold execTagged ts st')))
        = map_of (sources ?m) ++ map_of (rev (drawn (map snd (t # ts))))"
    using ih S' by (simp add: m' dr map_add_assoc)
  moreover have "\<forall>x. x \<notin> stepId ` snd ` set (t # ts) \<longrightarrow>
          map_of (layers (surfaceNow (fold execTagged ts st'))) x = map_of (layers ?m) x"
    using ih L' by (simp add: m' t)
  moreover have "\<forall>x. map_option source (map_of (layers (surfaceNow (fold execTagged ts st'))) x)
          = (if x \<in> fst ` set (drawn (map snd (t # ts))) then Some x
             else map_option source (map_of (layers ?m) x))"
    using ih Ls' by (simp add: m' dr image_Un)
  ultimately show ?case
    using ih by (simp add: step m')
qed

subsection \<open>The steps of two interleaved requests\<close>

lemma set_interleave: "set (interleave sched xs ys) = set xs \<union> set ys"
  by (induction sched xs ys rule: interleave.induct) auto

lemma map_interleave: "map f (interleave sched xs ys) = interleave sched (map f xs) (map f ys)"
  by (induction sched xs ys rule: interleave.induct) auto

lemma filter_interleave_left:
  "\<forall>x \<in> set xs. P x \<Longrightarrow> \<forall>y \<in> set ys. \<not> P y \<Longrightarrow> filter P (interleave sched xs ys) = xs"
  by (induction sched xs ys rule: interleave.induct) (auto simp: filter_id_conv filter_empty_conv)

lemma filter_interleave_right:
  "\<forall>x \<in> set xs. \<not> P x \<Longrightarrow> \<forall>y \<in> set ys. P y \<Longrightarrow> filter P (interleave sched xs ys) = ys"
  by (induction sched xs ys rule: interleave.induct) (auto simp: filter_id_conv filter_empty_conv)

lemma drawn_append: "drawn (xs @ ys) = drawn xs @ drawn ys"
  by (induction xs rule: drawn.induct) auto

lemma drawn_lineSteps: "drawn (lineSteps l) = [l]"
proof -
  have "drawn (map (Frame ident) ks) = []" for ident ks
    by (induction ks) auto
  then show ?thesis by (simp add: lineSteps_def)
qed

lemma drawn_traceSteps: "drawn (traceSteps ls) = ls"
  by (induction ls) (simp_all add: traceSteps_def drawn_append drawn_lineSteps)

lemma stepId_lineSteps: "stepId ` set (lineSteps l) = {fst l}"
  by (auto simp: lineSteps_def)

lemma stepId_traceSteps: "stepId ` set (traceSteps ls) = fst ` set ls"
proof -
  have "stepId ` set (traceSteps ls) = (\<Union>l \<in> set ls. stepId ` set (lineSteps l))"
    by (auto simp: traceSteps_def)
  then show ?thesis by (simp add: stepId_lineSteps) auto
qed

lemma drawn_filter: "drawn steps = map (\<lambda>s. case s of AddLine i c \<Rightarrow> (i, c) | Frame i k \<Rightarrow> (i, []))
    (filter (\<lambda>s. case s of AddLine i c \<Rightarrow> True | Frame i k \<Rightarrow> False) steps)"
  by (induction steps rule: drawn.induct) auto

lemma set_drawn_interleave:
  "set (drawn (interleave sched xs ys)) = set (drawn xs) \<union> set (drawn ys)"
  by (simp add: drawn_filter set_interleave image_Un Collect_disj_eq[symmetric]) auto

lemma drawn_interleave_other:
  assumes "ident \<notin> fst ` set (drawn ys)"
  shows "filter (\<lambda>l. fst l = ident) (drawn (interleave sched xs ys))
       = filter (\<lambda>l. fst l = ident) (drawn xs)"
  using assms
proof (induction sched xs ys rule: interleave.induct)
  case (1 sched ys)
  then show ?case by (auto simp: filter_empty_conv)
next
  case (3 x xs y ys)
  then have "filter (\<lambda>l. fst l = ident) (drawn (y # ys)) = []"
    by (auto simp: filter_empty_conv)
  then show ?case
    using drawn_append[of "x # xs" "y # ys"]
    by (simp only: interleave.simps filter_append append_Nil2)
next
  case (4 sched x xs y ys)
  then show ?case by (cases x) auto
next
  case (5 sched x xs y ys)
  then show ?case by (cases y) (auto split: if_splits)
qed simp

lemma map_of_rev_filter:
  "map_of (rev ls) ident = map_of (rev (filter (\<lambda>l. fst l = ident) ls)) ident"
proof (induction ls)
  case Nil
  then show ?case by simp
next
  case (Cons l ls)
  then show ?case by (cases l) (auto simp: map_add_def split: option.splits)
qed

lemma runBoth_facts:
  assumes "ownSources (fst ` set old \<union> fst ` set new) m"
  shows "thrown (runBoth sched old new m) = {}"
    and "map snd (filter fst (executed (runBoth sched old new m))) = traceSteps old"
    and "map snd (filter (\<lambda>t. \<not> fst t) (executed (runBoth sched old new m))) = traceSteps new"
    and "ident \<notin> fst ` set old \<union> fst ` set new \<Longrightarrow>
           getSource ident (surfaceNow (runBoth sched old new m)) = getSource ident m
         \<and> getLayer ident (surfaceNow (runBoth sched old new m)) = getLayer ident m"
    and "ident \<in> fst ` set old \<union> fst ` set new \<Longrightarrow>
           getSource ident (surfaceNow (runBoth sched old new m)) \<noteq> None
         \<and> map_option source (getLayer ident (surfaceNow (runBoth sched old new m))) = Some ident"
    and "ident \<in> fst ` set old \<Longrightarrow> ident \<notin> fst ` set new \<Longrightarrow>
           getSource ident (surfaceNow (runBoth sched old new m)) = map_of (rev old) ident"
proof -
  let ?ids = "fst ` set old \<union> fst ` set new"
  let ?xs = "map (Pair True) (traceSteps old)" and ?ys = "map (Pair False) (traceSteps new)"
  let ?ts = "interleave sched ?xs ?ys"
  let ?st = "\<lparr>surfaceNow = m, thrown = {}, executed = []\<rparr>"
  have snd_ts: "map snd ?ts = interleave sched (traceSteps old) (traceSteps new)"
    by (simp add: map_interleave comp_def)
  have ids: "stepId ` snd ` set ?ts = ?ids"
    by (simp add: set_interleave image_Un image_image stepId_traceSteps)
  then have all: "\<forall>t \<in> set ?ts. stepId (snd t) \<in> ?ids" by blast
  have dr: "set (drawn (map snd ?ts)) = set old \<union> set new"
    by (simp add: snd_ts set_drawn_interleave drawn_traceSteps)
  from run_fold[of ?ids ?st ?ts] assms all
  have f: "thrown (runBoth sched old new m) = {}"
    "executed (runBoth sched old new m) = ?ts"
    "map_of (sources (surfaceNow (runBoth sched old new m)))
        = map_of (sources m) ++ map_of (rev (drawn (map snd ?ts)))"
    "\<forall>x. x \<notin> stepId ` snd ` set ?ts \<longrightarrow>
          map_of (layers (surfaceNow (runBoth sched old new m))) x = map_of (layers m) x"
    "\<forall>x. map_option source (map_of (layers (surfaceNow (runBoth sched old new m))) x)
          = (if x \<in> fst ` set (drawn (map snd ?ts)) then Some x
             else map_option source (map_of (layers m) x))"
    unfolding runBoth_def by simp_all
  show "thrown (runBoth sched old new m) = {}" by (rule f(1))
  have "filter fst ?ts = ?xs" by (rule filter_interleave_left) auto
  then show "map snd (filter fst (executed (runBoth sched old new m))) = traceSteps old"
    by (simp add: f(2) comp_def)
  have "filter (\<lambda>t. \<not> fst t) ?ts = ?ys" by (rule filter_interleave_right) auto
  then show "map snd (filter (\<lambda>t. \<not> fst t) (executed (runBoth sched old new m))) = traceSteps new"
    by (simp add: f(2) comp_def)
  {
    assume n: "ident \<notin> ?ids"
    then have "ident \<notin> fst ` set (rev (drawn (map snd ?ts)))" by (simp add: dr image_Un)
    then have "map_of (rev (drawn (map snd ?ts))) ident = None"
      by (simp add: map_of_eq_None_iff)
    then have "getSource ident (surfaceNow (runBoth sched old new m)) = getSource ident m"
      by (simp add: getSource_def f(3) map_add_def)
    moreover from n f(4) ids
    have "getLayer ident (surfaceNow (runBoth sched old new m)) = getLayer ident m"
      by (simp add: getLayer_def)
    ultimately show "getSource ident (surfaceNow (runBoth sched old new m)) = getSource ident m
         \<and> getLayer ident (surfaceNow (runBoth sched old new m)) = getLayer ident m" by simp
  }
  {
    assume i: "ident \<in> ?ids"
    then have "ident \<in> fst ` set (rev (drawn (map snd ?ts)))" by (simp add: dr image_Un)
    then have "map_of (rev (drawn (map snd ?ts))) ident \<noteq> None"
      by (simp only: map_of_eq_None_iff not_not)
    then have "getSource ident (surfaceNow (runBoth sched old new m)) \<noteq> None"
      by (auto simp: getSource_def f(3) map_add_def)
    moreover from i f(5)
    have "map_option source (getLayer ident (surfaceNow (runBoth sched old new m))) = Some ident"
      by (simp add: getLayer_def dr image_Un)
    ultimately show "getSource ident (surfaceNow (runBoth sched old new m)) \<noteq> None
         \<and> map_option source (getLayer ident (surfaceNow (runBoth sched old new m))) = Some ident"
      by simp
  }
  {
    assume o: "ident \<in> fst ` set old" and n: "ident \<notin> fst ` set new"
    from n have "filter (\<lambda>l. fst l = ident) (drawn (map snd ?ts)) = filter (\<lambda>l. fst l = ident) old"
      using drawn_interleave_other[of ident "traceSteps new" sched "traceSteps old"]
      by (simp add: snd_ts drawn_traceSteps)
    then have eq: "map_of (rev (drawn (map snd ?ts))) ident = map_of (rev old) ident"
      by (subst map_of_rev_filter, subst (2) map_of_rev_filter) (simp only:)
    from o have "ident \<in> fst ` set (rev old)" by simp
    then have "map_of (rev old) ident \<noteq> None" by (simp only: map_of_eq_None_iff not_not)
    with eq show "getSource ident (surfaceNow (runBoth sched old new m)) = map_of (rev old) ident"
      by (auto simp: getSource_def f(3) map_add_def)
  }
qed

text \<open>The removal in \<open>animateLine\<close> is what lets a line be drawn again.\<close>

lemma addSource_again_throws:
  "getSource ident m \<noteq> None \<Longrightarrow> addSource ident coords m = Inl MapError"
  by (simp add: addSource_def)

text \<open>A map without layers, as before the first line is drawn, is such a map.\<close>

lemma ownSources_empty: "ownSources ids emptySurface"
  by (simp add: ownSources_def emptySurface_def)

text \<open>
  On a map where a layer of another id draws from the source, the source cannot be removed
  and drawing the line throws.
\<close>

lemma foreign_layer_blocks_redraw:
  "execStep (AddLine ''to-0'' [(11, 21), (10, 20)]) blockedSurface = (Some MapError, blockedSurface)
   \<and> \<not> ownSources {''to-0''} blockedSurface"
  by (simp add: blockedSurface_def getLayer_def getSource_def removeSource_def sourceInUse_def
      addSource_def ownSources_def Let_def)

subsection \<open>Two requests on the example data\<close>

lemma firstRequest_lines:
  "firstRequest =
     [(''to-0'', [(11, 21), (10, 20)]),
      (''cable-0-0'', [(10, 20), (30, 25), (55, 20)]),
      (''from-0'', [(55, 20), (54, 19)])]"
  by (simp add: firstRequest_def animateTrace_def example_graph loadFeatures_def routePair_def
      hopAt_truthyPoint getClosestCoordKey_def nearer_def landingOf_def gridDistance_def
      seaLegs_def findCablePathDFS.simps edgesOf_def cableLeg_def animateLine_def digits_0 Let_def)

lemma secondRequest_lines: "secondRequest = [(''direct-0'', [(11, 21), (54, 19)])]"
  by (simp add: secondRequest_def animateTrace_def loadFeatures_def directPair_def
      hopAt_truthyPoint animateLine_def digits_0 Let_def)

text \<open>
  C2, as stated: a new request cancels the playback in flight, and afterwards only lines of
  the new request are on the map. \<open>animateTrace\<close> has no cancellation: the earlier call
  keeps running, and neither call removes a line it does not redraw. Here the two calls take
  turns, the first request moving first; the second draws only \<open>direct-0\<close>; at the end
  \<open>to-0\<close> and \<open>from-0\<close> of the first request are still on the map.
\<close>

theorem stale_lines_after_new_request:
  "getSource ''to-0'' (surfaceNow (runBoth alternate firstRequest secondRequest emptySurface))
     = Some [(11, 21), (10, 20)]
   \<and> getSource ''from-0'' (surfaceNow (runBoth alternate firstRequest secondRequest emptySurface))
     = Some [(55, 20), (54, 19)]
   \<and> ''to-0'' \<notin> fst ` set secondRequest \<and> ''from-0'' \<notin> fst ` set secondRequest"
proof -
  have a: "''to-0'' \<in> fst ` set firstRequest" "''to-0'' \<notin> fst ` set secondRequest"
    "''from-0'' \<in> fst ` set firstRequest" "''from-0'' \<notin> fst ` set secondRequest"
    by (simp_all add: firstRequest_lines secondRequest_lines)
  from runBoth_facts(6)[OF ownSources_empty a(1,2), where sched = alternate]
    runBoth_facts(6)[OF ownSources_empty a(3,4), where sched = alternate] a
  show ?thesis by (simp add: firstRequest_lines)
qed

text \<open>
  C2, amended: when a new request starts while an earlier one is in flight on the same map,
  a map on which no layer of another id draws from a source named by a line id of the two
  requests, then in every interleaving no call throws and each call carries out all its
  steps in order: the earlier playback is not cancelled. Afterwards a source or layer under
  an id that neither request draws is as it was, every id drawn by either request has a
  source and a layer drawing it, and a line whose id only the earlier request draws is on
  the map with the coordinates the earlier request (last) gave it.
\<close>

theorem overlapping_runs_keep_both:
  assumes "ownSources (fst ` set old \<union> fst ` set new) m"
  shows "thrown (runBoth sched old new m) = {}
    \<and> map snd (filter fst (executed (runBoth sched old new m))) = traceSteps old
    \<and> map snd (filter (\<lambda>t. \<not> fst t) (executed (runBoth sched old new m))) = traceSteps new
    \<and> (ident \<notin> fst ` set old \<union> fst ` set new \<longrightarrow>
           getSource ident (surfaceNow (runBoth sched old new m)) = getSource ident m
         \<and> getLayer ident (surfaceNow (runBoth sched old new m)) = getLayer ident m)
    \<and> (ident \<in> fst ` set old \<union> fst ` set new \<longrightarrow>
           getSource ident (surfaceNow (runBoth sched old new m)) \<noteq> None
         \<and> map_option source (getLayer ident (surfaceNow (runBoth sched old new m))) = Some ident)
    \<and> (ident \<in> fst ` set old \<and> ident \<notin> fst ` set new \<longrightarrow>
           getSource ident (surfaceNow (runBoth sched old new m)) = map_of (rev old) ident)"
proof (intro conjI impI)
  show "thrown (runBoth sched old new m) = {}"
    by (rule runBoth_facts(1)[OF assms])
  show "map snd (filter fst (executed (runBoth sched old new m))) = traceSteps old"
    by (rule runBoth_facts(2)[OF assms])
  show "map snd (filter (\<lambda>t. \<not> fst t) (executed (runBoth sched old new m))) = traceSteps new"
    by (rule runBoth_facts(3)[OF assms])
next
  assume "ident \<notin> fst ` set old \<union> fst ` set new"
  from runBoth_facts(4)[OF assms this]
  show "getSource ident (surfaceNow (runBoth sched old new m)) = getSource ident m"
    and "getLayer ident (surfaceNow (runBoth sched old new m)) = getLayer ident m"
    by simp_all
next
  assume "ident \<in> fst ` set old \<union> fst ` set new"
  from runBoth_facts(5)[OF assms this]
  show "getSource ident (surfaceNow (runBoth sched old new m)) \<noteq> None"
    and "map_option source (getLayer ident (surfaceNow (runBoth sched old new m))) = Some ident"
    by simp_all
next
  assume "ident \<in> fst ` set old \<and> ident \<notin> fst ` set new"
  then have "ident \<in> fst ` set old" "ident \<notin> fst ` set new" by simp_all
  then show "getSource ident (surfaceNow (runBoth sched old new m)) = map_of (rev old) ident"
    by (rule runBoth_facts(6)[OF assms])
qed

theorem overlapping_runs_keep_both_witness:
  "ownSources (fst ` set firstRequest \<union> fst ` set secondRequest) emptySurface
   \<and> thrown (runBoth alternate firstRequest secondRequest emptySurface) = {}
   \<and> getSource ''cable-0-0'' (surfaceNow (runBoth alternate firstRequest secondRequest emptySurface))
       = Some [(10, 20), (30, 25), (55, 20)]
   \<and> map_option source
        (getLayer ''direct-0'' (surfaceNow (runBoth alternate firstRequest secondRequest emptySurface)))
       = Some ''direct-0''"
proof -
  have h: "ownSources (fst ` set firstRequest \<union> fst ` set secondRequest) emptySurface"
    by (rule ownSources_empty)
  have c: "''cable-0-0'' \<in> fst ` set firstRequest \<and> ''cable-0-0'' \<notin> fst ` set secondRequest"
    "''direct-0'' \<in> fst ` set firstRequest \<union> fst ` set secondRequest"
    by (simp_all add: firstRequest_lines secondRequest_lines)
  from overlapping_runs_keep_both[OF h, of alternate "''cable-0-0''"]
    overlapping_runs_keep_both[OF h, of alternate "''direct-0''"] c h
  show ?thesis by (simp add: firstRequest_lines)
qed

end
